theory Spec2Isabelle
  imports Main
begin

section \<open>Browser storage and JavaScript values\<close>

text \<open>
  \<open>localStorage\<close> is a dictionary from keys to strings; \<open>getItem\<close> of a missing key is
  \<open>null\<close>, modelled as \<open>None\<close>.
\<close>

type_synonym localStorage = "string \<rightharpoonup> string"

definition getItem :: "localStorage \<Rightarrow> string \<Rightarrow> string option" where
  "getItem ls k = ls k"

definition setItem :: "localStorage \<Rightarrow> string \<Rightarrow> string \<Rightarrow> localStorage" where
  "setItem ls k v = ls(k \<mapsto> v)"

definition removeItem :: "localStorage \<Rightarrow> string \<Rightarrow> localStorage" where
  "removeItem ls k = ls(k := None)"

text \<open>
  The body of a response (\<open>response.data\<close>): \<open>null\<close>, a text, or an object with string
  fields. A property read on an object yields \<open>undefined\<close> (here \<open>None\<close>) for a missing
  key.
\<close>

datatype json = JNull | JText string | JObject "(string \<times> string) list"

text \<open>\<open>String(v)\<close> and the template literal \<open>${v}\<close> for a string or \<open>undefined\<close>.\<close>

fun String :: "string option \<Rightarrow> string" where
  "String None = ''undefined''"
| "String (Some s) = s"

text \<open>The template literal \<open>${v}\<close> for a string or \<open>null\<close>.\<close>

fun template_null :: "string option \<Rightarrow> string" where
  "template_null None = ''null''"
| "template_null (Some s) = s"

section \<open>ApiClient: requests, responses, errors\<close>

text \<open>
  The axios request configuration of one logical request. \<open>cfg_Authorization\<close> is
  \<open>config.headers.Authorization\<close>, \<open>cfg_retry\<close> is the \<open>_retry\<close> mark the response
  interceptor sets on \<open>error.config\<close>; axios carries it over when the configuration is
  handed back to \<open>this.client(originalRequest)\<close>.
\<close>

record config =
  cfg_method :: string
  cfg_url :: string
  cfg_data :: json
  cfg_Authorization :: "string option"
  cfg_retry :: bool

record response =
  status :: nat
  data :: json

text \<open>
  What goes over the network: a request of \<open>this.client\<close>, or the refresh exchange
  \<open>axios.post(API_BASE_URL/auth/token/refresh/, {refresh: refreshToken})\<close> made with the
  bare \<open>axios\<close> (no interceptors), which carries only the stored refresh value.
\<close>

datatype call = Send config | RefreshPost "string option"

text \<open>
  A rejection: the \<open>AxiosError\<close> of a call (\<open>error.config\<close>, \<open>error.response\<close>, the latter
  absent when no answer arrived), or the \<open>TypeError\<close> of destructuring \<open>null\<close>.
\<close>

datatype js_error = AxiosError call "response option" | TypeError

text \<open>What the network delivers for a call.\<close>

datatype reply = NoResponse | Reply response

text \<open>axios settles a promise with the default \<open>validateStatus\<close>: 2xx resolves.\<close>

definition settle :: "call \<Rightarrow> reply \<Rightarrow> js_error + response" where
  "settle c r =
     (case r of
        NoResponse \<Rightarrow> Inl (AxiosError c None)
      | Reply resp \<Rightarrow>
          if 200 \<le> status resp \<and> status resp < 300 then Inr resp
          else Inl (AxiosError c (Some resp)))"

text \<open>\<open>const { access } = response.data\<close>\<close>

fun destructure_access :: "json \<Rightarrow> js_error + string option" where
  "destructure_access JNull = Inl TypeError"
| "destructure_access (JText s) = Inr None"
| "destructure_access (JObject kvs) = Inr (map_of kvs ''access'')"

section \<open>ApiClient: the interceptors as an event-driven machine\<close>

text \<open>
  The client runs on the single-threaded event loop. Every logical request is a task that
  is suspended at an \<open>await\<close> until the answer to its pending call is delivered:
  \<^item> \<open>AwaitResponse cfg\<close>: \<open>cfg\<close> was sent by \<open>this.client\<close>, the answer is pending;
  \<^item> \<open>AwaitRefresh cfg tok\<close>: the response interceptor is suspended at
    \<open>await axios.post(...)\<close> with refresh value \<open>tok\<close>, for the original request \<open>cfg\<close>;
  \<^item> \<open>Settled r\<close>: the promise returned to the caller is resolved (\<open>Inr\<close>) or rejected
    (\<open>Inl\<close>).
  \<open>calls\<close> records every call put on the network, in order.
\<close>

datatype phase =
    AwaitResponse config
  | AwaitRefresh config "string option"
  | Settled "js_error + response"

record transport =
  storage :: localStorage
  location_href :: string
  tasks :: "phase list"
  calls :: "call list"

text \<open>
  The request interceptor:
  \<^verbatim>\<open>
  const token = localStorage.getItem('access_token');
  if (token) { config.headers.Authorization = `Bearer ${token}`; }
  return config;
  \<close>
  A string is truthy when it is not empty.
\<close>

definition request_interceptor :: "localStorage \<Rightarrow> config \<Rightarrow> config" where
  "request_interceptor ls cfg =
     (case getItem ls ''access_token'' of
        None \<Rightarrow> cfg
      | Some token \<Rightarrow>
          if token \<noteq> [] then cfg\<lparr>cfg_Authorization := Some (''Bearer '' @ token)\<rparr>
          else cfg)"

text \<open>
  \<open>this.client(config)\<close> on behalf of task \<open>i\<close>: the request interceptor runs, the
  request goes out and the task waits for the answer.
\<close>

definition client :: "transport \<Rightarrow> nat \<Rightarrow> config \<Rightarrow> transport" where
  "client t i cfg =
     (let cfg' = request_interceptor (storage t) cfg
      in t\<lparr>tasks := (tasks t)[i := AwaitResponse cfg'],
           calls := calls t @ [Send cfg']\<rparr>)"

text \<open>A caller starts a new logical request (\<open>api.client.get(...)\<close> and the like).\<close>

definition execute :: "transport \<Rightarrow> config \<Rightarrow> transport" where
  "execute t cfg =
     client (t\<lparr>tasks := tasks t @ [AwaitResponse cfg]\<rparr>) (length (tasks t)) cfg"

text \<open>
  The \<open>catch (refreshError)\<close> block:
  \<^verbatim>\<open>
  localStorage.removeItem('access_token');
  localStorage.removeItem('refresh_token');
  window.location.href = '/auth';
  return Promise.reject(refreshError);
  \<close>
\<close>

definition refresh_rejected :: "transport \<Rightarrow> nat \<Rightarrow> js_error \<Rightarrow> transport" where
  "refresh_rejected t i refreshError =
     t\<lparr>storage := removeItem (removeItem (storage t) ''access_token'') ''refresh_token'',
       location_href := ''/auth'',
       tasks := (tasks t)[i := Settled (Inl refreshError)]\<rparr>"

text \<open>
  The \<open>try\<close> block after the \<open>await\<close>:
  \<^verbatim>\<open>
  const { access } = response.data;
  localStorage.setItem('access_token', access);
  originalRequest.headers.Authorization = `Bearer ${access}`;
  return this.client(originalRequest);
  \<close>
  The promise of the resent request is returned without \<open>await\<close>, so its rejection is
  not caught by the \<open>catch\<close> block: the task takes the outcome of the resent request.
\<close>

definition refresh_resolved :: "transport \<Rightarrow> nat \<Rightarrow> config \<Rightarrow> response \<Rightarrow> transport" where
  "refresh_resolved t i originalRequest resp =
     (case destructure_access (data resp) of
        Inl e \<Rightarrow> refresh_rejected t i e
      | Inr access \<Rightarrow>
          client
            (t\<lparr>storage := setItem (storage t) ''access_token'' (String access)\<rparr>)
            i
            (originalRequest\<lparr>cfg_Authorization := Some (''Bearer '' @ String access)\<rparr>))"

text \<open>
  The response interceptor's error handler up to its \<open>await\<close>, for the error of the
  request \<open>originalRequest = error.config\<close> with \<open>error.response = resp\<close>:
  \<^verbatim>\<open>
  if (error.response?.status === 401 && !originalRequest._retry) {
    originalRequest._retry = true;
    try {
      const refreshToken = localStorage.getItem('refresh_token');
      const response = await axios.post(..., { refresh: refreshToken });
      ...
  }
  return Promise.reject(error);
  \<close>
\<close>

definition response_rejected ::
  "transport \<Rightarrow> nat \<Rightarrow> config \<Rightarrow> response option \<Rightarrow> transport" where
  "response_rejected t i originalRequest resp =
     (if map_option status resp = Some 401 \<and> \<not> cfg_retry originalRequest then
        let refreshToken = getItem (storage t) ''refresh_token''
        in t\<lparr>tasks := (tasks t)[i := AwaitRefresh (originalRequest\<lparr>cfg_retry := True\<rparr>) refreshToken],
             calls := calls t @ [RefreshPost refreshToken]\<rparr>
      else t\<lparr>tasks := (tasks t)[i := Settled (Inl (AxiosError (Send originalRequest) resp))]\<rparr>)"

text \<open>
  The events of the loop: the answer to the pending request of task \<open>i\<close>, or the answer to
  its pending refresh exchange. An event for a task that does not wait for it is not
  enabled (\<open>None\<close>).
\<close>

datatype event = Response nat reply | RefreshResponse nat reply

fun deliver :: "transport \<Rightarrow> event \<Rightarrow> transport option" where
  "deliver t (Response i r) =
     (if i < length (tasks t) then
        (case tasks t ! i of
           AwaitResponse cfg \<Rightarrow>
             (case settle (Send cfg) r of
                Inr resp \<Rightarrow> Some (t\<lparr>tasks := (tasks t)[i := Settled (Inr resp)]\<rparr>)
              | Inl (AxiosError c resp) \<Rightarrow> Some (response_rejected t i cfg resp)
              | Inl TypeError \<Rightarrow> None)
         | AwaitRefresh cfg tok \<Rightarrow> None
         | Settled res \<Rightarrow> None)
      else None)"
| "deliver t (RefreshResponse i r) =
     (if i < length (tasks t) then
        (case tasks t ! i of
           AwaitResponse cfg \<Rightarrow> None
         | AwaitRefresh cfg tok \<Rightarrow>
             (case settle (RefreshPost tok) r of
                Inr resp \<Rightarrow> Some (refresh_resolved t i cfg resp)
              | Inl refreshError \<Rightarrow> Some (refresh_rejected t i refreshError))
         | Settled res \<Rightarrow> None)
      else None)"

fun run :: "transport \<Rightarrow> event list \<Rightarrow> transport option" where
  "run t [] = Some t"
| "run t (e # es) = (case deliver t e of None \<Rightarrow> None | Some t' \<Rightarrow> run t' es)"

text \<open>Observations on the network log.\<close>

fun is_refresh :: "call \<Rightarrow> bool" where
  "is_refresh (RefreshPost tok) = True"
| "is_refresh (Send cfg) = False"

definition refresh_calls :: "transport \<Rightarrow> nat" where
  "refresh_calls t = length (filter is_refresh (calls t))"

definition sends :: "transport \<Rightarrow> config list" where
  "sends t = concat (map (\<lambda>c. case c of Send cfg \<Rightarrow> [cfg] | RefreshPost tok \<Rightarrow> []) (calls t))"

text \<open>
  The source has no error class named \<open>SessionExpired\<close>. The outcome the specification
  calls so is the rejection of the \<open>catch\<close> block with \<open>refreshError\<close>: the error of the
  refresh exchange, or the \<open>TypeError\<close> raised inside the \<open>try\<close> block.
\<close>

fun SessionExpired :: "js_error \<Rightarrow> bool" where
  "SessionExpired (AxiosError (RefreshPost tok) resp) = True"
| "SessionExpired (AxiosError (Send cfg) resp) = False"
| "SessionExpired TypeError = True"

text \<open>The specification's \<open>Unauthorized\<close>: the error of a request answered with 401.\<close>

fun Unauthorized :: "js_error \<Rightarrow> bool" where
  "Unauthorized (AxiosError (Send cfg) resp) = (map_option status resp = Some 401)"
| "Unauthorized (AxiosError (RefreshPost tok) resp) = False"
| "Unauthorized TypeError = False"

text \<open>
  Scenario A of the specification: the store holds access \<open>A1\<close> and refresh \<open>R1\<close>, and
  the caller executes \<open>GET /x\<close>.
\<close>

definition store_A :: localStorage where
  "store_A = setItem (setItem Map.empty ''access_token'' ''A1'') ''refresh_token'' ''R1''"

definition idle_A :: transport where
  "idle_A = \<lparr>storage = store_A, location_href = ''/'', tasks = [], calls = []\<rparr>"

definition get_x :: config where
  "get_x = \<lparr>cfg_method = ''get'', cfg_url = ''/x'', cfg_data = JNull,
            cfg_Authorization = None, cfg_retry = False\<rparr>"

definition unauthorized :: response where
  "unauthorized = \<lparr>status = 401, data = JNull\<rparr>"

definition refreshed_A2 :: response where
  "refreshed_A2 = \<lparr>status = 200, data = JObject [(''access'', ''A2'')]\<rparr>"

text \<open>A refresh answer from a server that rotates the refresh value.\<close>

definition rotated_A2_R2 :: response where
  "rotated_A2_R2 = \<lparr>status = 200, data = JObject [(''access'', ''A2''), (''refresh'', ''R2'')]\<rparr>"

text \<open>A refresh answer from a server that has revoked the refresh value.\<close>

definition revoked :: reply where
  "revoked = Reply \<lparr>status = 401, data = JNull\<rparr>"

definition get_y :: config where
  "get_y = \<lparr>cfg_method = ''get'', cfg_url = ''/y'', cfg_data = JNull,
            cfg_Authorization = None, cfg_retry = False\<rparr>"

definition ok_true :: response where
  "ok_true = \<lparr>status = 200, data = JObject [(''ok'', ''true'')]\<rparr>"

text \<open>Observations on the outcome of a schedule, for closed statements.\<close>

definition outcome :: "transport option \<Rightarrow> nat \<Rightarrow> (js_error + response) option" where
  "outcome t i =
     (case t of
        None \<Rightarrow> None
      | Some t' \<Rightarrow>
          if i < length (tasks t') then
            (case tasks t' ! i of
               AwaitResponse cfg \<Rightarrow> None
             | AwaitRefresh cfg tok \<Rightarrow> None
             | Settled res \<Rightarrow> Some res)
          else None)"

definition stored :: "transport option \<Rightarrow> string \<Rightarrow> string option option" where
  "stored t k = (case t of None \<Rightarrow> None | Some t' \<Rightarrow> Some (getItem (storage t') k))"

text \<open>
  A burst: the requests \<open>js\<close> (task indices, in the order the answers arrive) are each
  answered with \<open>r\<close>.
\<close>

definition burst :: "nat list \<Rightarrow> response \<Rightarrow> event list" where
  "burst js r = map (\<lambda>i. Response i (Reply r)) js"

text \<open>A request in flight that has not been retried.\<close>

fun first_attempt :: "phase \<Rightarrow> bool" where
  "first_attempt (AwaitResponse cfg) = (\<not> cfg_retry cfg)"
| "first_attempt (AwaitRefresh cfg tok) = False"
| "first_attempt (Settled res) = False"

text \<open>Scenario A with a second request: \<open>GET /x\<close> and \<open>GET /y\<close> are both in flight.\<close>

definition two_in_flight :: transport where
  "two_in_flight = execute (execute idle_A get_x) get_y"

section \<open>useWebSocket: the hook as an event-driven machine\<close>

text \<open>
  \<open>WebSocket.readyState\<close>. \<open>close()\<close> moves a connecting or open socket to \<open>CLOSING\<close>
  and does nothing on a closing or closed one; the \<open>close\<close> event arrives later.
\<close>

datatype readyState = CONNECTING | OPEN | CLOSING | CLOSED

text \<open>
  \<open>connect\<close> is a \<open>useCallback\<close> closure: it, and the handlers it installs, see the
  constants \<open>isAuthenticated\<close> and \<open>reconnectCount\<close> of the render that created it. A
  \<open>render\<close> holds these two values; \<open>url\<close> and \<open>maxReconnectAttempts\<close> are options and
  do not change.
\<close>

record render =
  r_isAuthenticated :: bool
  r_reconnectCount :: nat

record websocket =
  ws_url :: string
  ws_readyState :: readyState
  ws_render :: render

datatype timer_status = Pending | Fired | Cleared

record timer =
  timer_render :: render
  timer_status :: timer_status

text \<open>
  \<open>UseWebSocketOptions\<close>. The callbacks are optional; the model records whether each is
  given and logs its invocation. Callbacks are taken to return normally and not to call
  back into the hook.
\<close>

record options =
  url :: string
  onMessage :: bool
  onConnect :: bool
  onDisconnect :: bool
  reconnectInterval :: nat
  maxReconnectAttempts :: nat

datatype 'm logged =
    Console_log string
  | Console_error string
  | OnConnect
  | OnDisconnect
  | OnMessage 'm

text \<open>
  The state of one hook instance: the two \<open>useState\<close> cells, the value selected from the
  store, the render whose effect is in force, the two refs, every socket and timer made
  so far (a ref holds an index), \<open>localStorage\<close> and the log of console lines and
  callback invocations.
\<close>

record 'm hook =
  isConnected :: bool
  reconnectCount :: nat
  isAuthenticated :: bool
  rendered :: render
  wsRef :: "nat option"
  reconnectTimeoutRef :: "nat option"
  sockets :: "websocket list"
  timers :: "timer list"
  local_storage :: localStorage
  outputs :: "'m logged list"

definition ws_close :: "websocket \<Rightarrow> websocket" where
  "ws_close ws =
     (case ws_readyState ws of
        CONNECTING \<Rightarrow> ws\<lparr>ws_readyState := CLOSING\<rparr>
      | OPEN \<Rightarrow> ws\<lparr>ws_readyState := CLOSING\<rparr>
      | CLOSING \<Rightarrow> ws
      | CLOSED \<Rightarrow> ws)"

definition clearTimeout :: "timer \<Rightarrow> timer" where
  "clearTimeout tm =
     (case timer_status tm of
        Pending \<Rightarrow> tm\<lparr>timer_status := Cleared\<rparr>
      | Fired \<Rightarrow> tm
      | Cleared \<Rightarrow> tm)"

text \<open>
  \<^verbatim>\<open>
  const connect = useCallback(() => {
    if (!isAuthenticated) return;
    if (wsRef.current) { wsRef.current.close(); }
    const token = localStorage.getItem('access_token');
    const wsUrl = `${url}?token=${token}`;
    const ws = new WebSocket(wsUrl);
    ws.onopen = ...; ws.onmessage = ...; ws.onerror = ...; ws.onclose = ...;
    wsRef.current = ws;
  }, [url, isAuthenticated, reconnectCount, maxReconnectAttempts]);
  \<close>
  The handlers of the new socket are closures of this \<open>connect\<close>: the socket keeps the
  render \<open>r\<close>.
\<close>

definition connect :: "options \<Rightarrow> render \<Rightarrow> 'm hook \<Rightarrow> 'm hook" where
  "connect opts r h =
     (if \<not> r_isAuthenticated r then h
      else
        let h1 = (case wsRef h of
                    None \<Rightarrow> h
                  | Some i \<Rightarrow> h\<lparr>sockets := (sockets h)[i := ws_close (sockets h ! i)]\<rparr>);
            token = getItem (local_storage h1) ''access_token'';
            wsUrl = url opts @ ''?token='' @ template_null token;
            ws = \<lparr>ws_url = wsUrl, ws_readyState = CONNECTING, ws_render = r\<rparr>
        in h1\<lparr>sockets := sockets h1 @ [ws], wsRef := Some (length (sockets h1))\<rparr>)"

text \<open>
  \<^verbatim>\<open>
  const disconnect = useCallback(() => {
    if (reconnectTimeoutRef.current) { clearTimeout(reconnectTimeoutRef.current); }
    if (wsRef.current) { wsRef.current.close(); wsRef.current = null; }
  }, []);
  \<close>
\<close>

definition disconnect :: "'m hook \<Rightarrow> 'm hook" where
  "disconnect h =
     (let h1 = (case reconnectTimeoutRef h of
                  None \<Rightarrow> h
                | Some k \<Rightarrow> h\<lparr>timers := (timers h)[k := clearTimeout (timers h ! k)]\<rparr>)
      in case wsRef h1 of
           None \<Rightarrow> h1
         | Some i \<Rightarrow> h1\<lparr>sockets := (sockets h1)[i := ws_close (sockets h1 ! i)], wsRef := None\<rparr>)"

text \<open>
  \<^verbatim>\<open>
  ws.onopen = () => {
    console.log(...); setIsConnected(true); setReconnectCount(0); onConnect?.();
  };
  \<close>
\<close>

definition onopen :: "options \<Rightarrow> 'm hook \<Rightarrow> 'm hook" where
  "onopen opts h =
     h\<lparr>isConnected := True,
       reconnectCount := 0,
       outputs := outputs h @ [Console_log ''WebSocket connected''] @
                  (if onConnect opts then [OnConnect] else [])\<rparr>"

text \<open>
  \<^verbatim>\<open>
  ws.onmessage = (event) => {
    try { const message = JSON.parse(event.data); onMessage?.(message); }
    catch (error) { console.error('Failed to parse WebSocket message:', error); }
  };
  \<close>
  \<open>JSON_parse\<close> is the platform's parser: \<open>None\<close> when it throws.
\<close>

definition onmessage :: "(string \<Rightarrow> 'm option) \<Rightarrow> options \<Rightarrow> string \<Rightarrow> 'm hook \<Rightarrow> 'm hook" where
  "onmessage JSON_parse opts event_data h =
     (case JSON_parse event_data of
        Some message \<Rightarrow>
          if onMessage opts then h\<lparr>outputs := outputs h @ [OnMessage message]\<rparr> else h
      | None \<Rightarrow>
          h\<lparr>outputs := outputs h @ [Console_error ''Failed to parse WebSocket message:'']\<rparr>)"

text \<open>\<open>ws.onerror = (error) => { console.error('WebSocket error:', error); }\<close>\<close>

definition onerror :: "'m hook \<Rightarrow> 'm hook" where
  "onerror h = h\<lparr>outputs := outputs h @ [Console_error ''WebSocket error:'']\<rparr>"

text \<open>
  \<^verbatim>\<open>
  ws.onclose = () => {
    console.log(...); setIsConnected(false); onDisconnect?.();
    if (reconnectCount < maxReconnectAttempts) {
      reconnectTimeoutRef.current = setTimeout(() => { ... }, reconnectInterval);
    }
  };
  \<close>
  \<open>reconnectCount\<close> is the constant of the render \<open>r\<close> that made the socket. The new timer
  keeps \<open>r\<close> for its callback.
\<close>

definition onclose :: "options \<Rightarrow> render \<Rightarrow> 'm hook \<Rightarrow> 'm hook" where
  "onclose opts r h =
     (let h1 = h\<lparr>isConnected := False,
                 outputs := outputs h @ [Console_log ''WebSocket disconnected''] @
                            (if onDisconnect opts then [OnDisconnect] else [])\<rparr>
      in if r_reconnectCount r < maxReconnectAttempts opts then
           h1\<lparr>timers := timers h1 @ [\<lparr>timer_render = r, timer_status = Pending\<rparr>],
              reconnectTimeoutRef := Some (length (timers h1))\<rparr>
         else h1)"

text \<open>
  The timer's callback:
  \<^verbatim>\<open>
  console.log(`Reconnecting... (${reconnectCount + 1}/${maxReconnectAttempts})`);
  setReconnectCount((prev) => prev + 1);
  connect();
  \<close>
  \<open>connect\<close> is the closure that scheduled the timer, the one of render \<open>r\<close>.
\<close>

definition reconnect :: "options \<Rightarrow> render \<Rightarrow> 'm hook \<Rightarrow> 'm hook" where
  "reconnect opts r h =
     connect opts r
       (h\<lparr>reconnectCount := reconnectCount h + 1,
          outputs := outputs h @ [Console_log ''Reconnecting...'']\<rparr>)"

text \<open>
  \<^verbatim>\<open>
  useEffect(() => {
    if (isAuthenticated) { connect(); }
    return () => disconnect();
  }, [isAuthenticated, connect, disconnect]);
  \<close>
  A render after a state change sees the current \<open>isAuthenticated\<close> and
  \<open>reconnectCount\<close>. When either differs from the render in force, \<open>connect\<close> is a new
  closure, so the effect's cleanup runs and then the effect with the new \<open>connect\<close>.
\<close>

definition effect :: "options \<Rightarrow> render \<Rightarrow> 'm hook \<Rightarrow> 'm hook" where
  "effect opts r h = (if r_isAuthenticated r then connect opts r h else h)"

definition rerender :: "options \<Rightarrow> 'm hook \<Rightarrow> 'm hook" where
  "rerender opts h =
     (let r = \<lparr>r_isAuthenticated = isAuthenticated h, r_reconnectCount = reconnectCount h\<rparr>
      in if r = rendered h then h
         else (effect opts r (disconnect h))\<lparr>rendered := r\<rparr>)"

text \<open>The first render and its effect.\<close>

definition mount :: "options \<Rightarrow> localStorage \<Rightarrow> bool \<Rightarrow> 'm hook" where
  "mount opts ls auth =
     (let r = \<lparr>r_isAuthenticated = auth, r_reconnectCount = 0\<rparr>
      in effect opts r
           \<lparr>isConnected = False, reconnectCount = 0, isAuthenticated = auth, rendered = r,
            wsRef = None, reconnectTimeoutRef = None, sockets = [], timers = [],
            local_storage = ls, outputs = []\<rparr>)"

text \<open>
  The events of the loop. A socket opens only while connecting, delivers messages only
  while open and closes once; a timer fires only while pending. Any other event is not
  enabled (\<open>None\<close>).
\<close>

datatype hook_event =
    WsOpen nat
  | WsMessage nat string
  | WsError nat
  | WsClose nat
  | TimerFire nat
  | Rerender
  | Disconnect
  | SetAuthenticated bool

fun step :: "(string \<Rightarrow> 'm option) \<Rightarrow> options \<Rightarrow> 'm hook \<Rightarrow> hook_event \<Rightarrow> 'm hook option" where
  "step JSON_parse opts h (WsOpen i) =
     (if i < length (sockets h) \<and> ws_readyState (sockets h ! i) = CONNECTING then
        Some (onopen opts (h\<lparr>sockets := (sockets h)[i := (sockets h ! i)\<lparr>ws_readyState := OPEN\<rparr>]\<rparr>))
      else None)"
| "step JSON_parse opts h (WsMessage i event_data) =
     (if i < length (sockets h) \<and> ws_readyState (sockets h ! i) = OPEN then
        Some (onmessage JSON_parse opts event_data h)
      else None)"
| "step JSON_parse opts h (WsError i) =
     (if i < length (sockets h) \<and> ws_readyState (sockets h ! i) \<noteq> CLOSED then
        Some (onerror h)
      else None)"
| "step JSON_parse opts h (WsClose i) =
     (if i < length (sockets h) \<and> ws_readyState (sockets h ! i) \<noteq> CLOSED then
        Some (onclose opts (ws_render (sockets h ! i))
                (h\<lparr>sockets := (sockets h)[i := (sockets h ! i)\<lparr>ws_readyState := CLOSED\<rparr>]\<rparr>))
      else None)"
| "step JSON_parse opts h (TimerFire k) =
     (if k < length (timers h) \<and> timer_status (timers h ! k) = Pending then
        Some (reconnect opts (timer_render (timers h ! k))
                (h\<lparr>timers := (timers h)[k := (timers h ! k)\<lparr>timer_status := Fired\<rparr>]\<rparr>))
      else None)"
| "step JSON_parse opts h Rerender = Some (rerender opts h)"
| "step JSON_parse opts h Disconnect = Some (disconnect h)"
| "step JSON_parse opts h (SetAuthenticated b) = Some (h\<lparr>isAuthenticated := b\<rparr>)"

fun steps :: "(string \<Rightarrow> 'm option) \<Rightarrow> options \<Rightarrow> 'm hook \<Rightarrow> hook_event list \<Rightarrow> 'm hook option" where
  "steps JSON_parse opts h [] = Some h"
| "steps JSON_parse opts h (e # es) =
     (case step JSON_parse opts h e of
        None \<Rightarrow> None
      | Some h' \<Rightarrow> steps JSON_parse opts h' es)"

text \<open>The sockets that are connecting or open, by index.\<close>

definition live :: "websocket \<Rightarrow> bool" where
  "live ws = (ws_readyState ws = CONNECTING \<or> ws_readyState ws = OPEN)"

definition live_sockets :: "'m hook \<Rightarrow> nat list" where
  "live_sockets h = filter (\<lambda>i. live (sockets h ! i)) [0..<length (sockets h)]"

definition pending_timers :: "'m hook \<Rightarrow> nat list" where
  "pending_timers h = filter (\<lambda>k. timer_status (timers h ! k) = Pending) [0..<length (timers h)]"

section \<open>useWebSocket: observations and scenarios\<close>

text \<open>
  Every connecting or open socket is the one \<open>wsRef\<close> holds, and \<open>wsRef\<close> holds a socket
  that exists.
\<close>

definition referenced_only :: "'m hook \<Rightarrow> bool" where
  "referenced_only h = list_all (\<lambda>i. wsRef h = Some i) (live_sockets h)"

definition wsRef_valid :: "'m hook \<Rightarrow> bool" where
  "wsRef_valid h = (case wsRef h of None \<Rightarrow> True | Some i \<Rightarrow> i < length (sockets h))"

text \<open>
  What a schedule leaves behind: \<open>reconnectCount\<close>, the state of every socket made
  (one per connection attempt), the state of every timer made (one per scheduled
  reconnection) and \<open>wsRef\<close>.
\<close>

definition summary ::
  "'m hook \<Rightarrow> nat \<times> readyState list \<times> timer_status list \<times> nat option" where
  "summary h =
     (reconnectCount h, map ws_readyState (sockets h), map timer_status (timers h), wsRef h)"

text \<open>
  A stand-in for \<open>JSON.parse\<close> in the concrete scenarios: it accepts a text that starts
  with a brace and throws on anything else.
\<close>

definition toy_parse :: "string \<Rightarrow> string option" where
  "toy_parse s = (case s of [] \<Rightarrow> None | c # cs \<Rightarrow> if c = CHR ''{'' then Some s else None)"

text \<open>The hook with its default options, and with the options of Scenario C.\<close>

definition default_options :: options where
  "default_options =
     \<lparr>url = ''ws://localhost:8000/ws/dashboard/'', onMessage = True, onConnect = False,
      onDisconnect = False, reconnectInterval = 3000, maxReconnectAttempts = 10\<rparr>"

definition options_C :: options where
  "options_C = default_options\<lparr>reconnectInterval := 0, maxReconnectAttempts := 3\<rparr>"

text \<open>
  Scenario C: every socket closes without having opened. In \<open>closes_after_render\<close> the
  \<open>close\<close> event of a socket arrives after the render that follows the timer; in
  \<open>closes_before_render\<close> it arrives before that render.
\<close>

definition closes_after_render :: "hook_event list" where
  "closes_after_render =
     [WsClose 0, TimerFire 0, Rerender,
      WsClose 1, WsClose 2, TimerFire 1, Rerender,
      WsClose 3, WsClose 4, TimerFire 3, Rerender,
      WsClose 5, WsClose 6, TimerFire 5]"

definition closes_before_render :: "hook_event list" where
  "closes_before_render =
     [WsClose 0, TimerFire 0, WsClose 1, Rerender,
      WsClose 2, TimerFire 2, WsClose 3, Rerender,
      WsClose 4, TimerFire 4, WsClose 5, Rerender,
      WsClose 6]"

text \<open>
  An open channel: the hook mounted with the default options in an authenticated session
  whose store is that of Scenario A, after its socket has opened.
\<close>

definition open_channel :: "string hook" where
  "open_channel =
     \<lparr>isConnected = True, reconnectCount = 0, isAuthenticated = True,
      rendered = \<lparr>r_isAuthenticated = True, r_reconnectCount = 0\<rparr>,
      wsRef = Some 0, reconnectTimeoutRef = None,
      sockets = [\<lparr>ws_url = ''ws://localhost:8000/ws/dashboard/?token=A1'',
                 ws_readyState = OPEN,
                 ws_render = \<lparr>r_isAuthenticated = True, r_reconnectCount = 0\<rparr>\<rparr>],
      timers = [], local_storage = store_A,
      outputs = [Console_log ''WebSocket connected'']\<rparr>"

text \<open>
  Events that can arrive while the session is signed out and no socket exists: renders, a
  caller's \<open>disconnect()\<close>, the flag confirmed false.
\<close>

definition idle_events :: "hook_event list" where
  "idle_events = [Rerender, Disconnect, SetAuthenticated False, Rerender]"

text \<open>
  A sign-out on an open channel: the flag turns false, the hook renders, then the \<open>close\<close>
  event of the socket arrives and the timer it scheduled fires.
\<close>

definition sign_out_events :: "hook_event list" where
  "sign_out_events = [SetAuthenticated False, Rerender, WsClose 0, TimerFire 0]"

text \<open>The render of the authenticated session in which \<open>open_channel\<close> was mounted.\<close>

definition signed_in :: render where
  "signed_in = \<lparr>r_isAuthenticated = True, r_reconnectCount = 0\<rparr>"

section \<open>ApiClient: single steps\<close>

lemma deliver_unauthorized:
  assumes "i < length (tasks t)" "tasks t ! i = AwaitResponse cfg" "\<not> cfg_retry cfg" "status r = 401"
  shows "deliver t (Response i (Reply r)) =
     Some (t\<lparr>tasks := (tasks t)[i := AwaitRefresh (cfg\<lparr>cfg_retry := True\<rparr>) (getItem (storage t) ''refresh_token'')],
             calls := calls t @ [RefreshPost (getItem (storage t) ''refresh_token'')]\<rparr>)"
  using assms by (simp add: settle_def response_rejected_def Let_def)

lemma deliver_resolved:
  assumes "i < length (tasks t)" "tasks t ! i = AwaitResponse cfg" "200 \<le> status r" "status r < 300"
  shows "deliver t (Response i (Reply r)) = Some (t\<lparr>tasks := (tasks t)[i := Settled (Inr r)]\<rparr>)"
  using assms by (simp add: settle_def)

lemma deliver_retried_unauthorized:
  assumes "i < length (tasks t)" "tasks t ! i = AwaitResponse cfg" "cfg_retry cfg" "status r = 401"
  shows "deliver t (Response i (Reply r)) =
     Some (t\<lparr>tasks := (tasks t)[i := Settled (Inl (AxiosError (Send cfg) (Some r)))]\<rparr>)"
  using assms by (simp add: settle_def response_rejected_def)

lemma deliver_refresh_ok:
  assumes "i < length (tasks t)" "tasks t ! i = AwaitRefresh cfg tok" "200 \<le> status rr" "status rr < 300"
    "destructure_access (data rr) = Inr access"
  shows "deliver t (RefreshResponse i (Reply rr)) =
     Some (t\<lparr>storage := setItem (storage t) ''access_token'' (String access),
             tasks := (tasks t)[i := AwaitResponse (cfg\<lparr>cfg_Authorization := Some (''Bearer '' @ String access)\<rparr>)],
             calls := calls t @ [Send (cfg\<lparr>cfg_Authorization := Some (''Bearer '' @ String access)\<rparr>)]\<rparr>)"
  using assms by (simp add: settle_def refresh_resolved_def client_def request_interceptor_def getItem_def setItem_def Let_def)

lemma deliver_refresh_failed:
  assumes "i < length (tasks t)" "tasks t ! i = AwaitRefresh cfg tok" "settle (RefreshPost tok) r = Inl e"
  shows "deliver t (RefreshResponse i r) = Some (refresh_rejected t i e)"
  using assms by simp

lemma execute_eq:
  "execute t cfg = t\<lparr>tasks := tasks t @ [AwaitResponse (request_interceptor (storage t) cfg)],
                     calls := calls t @ [Send (request_interceptor (storage t) cfg)]\<rparr>"
  by (simp add: execute_def client_def Let_def)

lemma request_interceptor_retry [simp]:
  "cfg_retry (request_interceptor ls cfg) = cfg_retry cfg"
  by (simp add: request_interceptor_def split: option.splits)

lemma refresh_calls_simps [simp]:
  "refresh_calls (t\<lparr>calls := cs\<rparr>) = length (filter is_refresh cs)"
  "refresh_calls (t\<lparr>tasks := ps\<rparr>) = refresh_calls t"
  "refresh_calls (t\<lparr>storage := ls\<rparr>) = refresh_calls t"
  by (simp_all add: refresh_calls_def)

lemma sends_simps [simp]:
  "sends (t\<lparr>calls := calls t @ [Send cfg]\<rparr>) = sends t @ [cfg]"
  "sends (t\<lparr>calls := calls t @ [RefreshPost tok]\<rparr>) = sends t"
  "sends (t\<lparr>tasks := ps\<rparr>) = sends t"
  "sends (t\<lparr>storage := ls\<rparr>) = sends t"
  by (simp_all add: sends_def)

text \<open>
  C2: a request that was not yet retried, answered 401, whose refresh exchange resolves with
  an access value, and whose resent request is answered 2xx: the caller's promise resolves
  with the answer of the resent request, the request was sent exactly twice (the original,
  then the retry marked retried and carrying the new access value), one refresh exchange
  was made, and the store holds the new access value.
\<close>

theorem single_retry:
  assumes fresh: "\<not> cfg_retry cfg"
    and first: "status r1 = 401"
    and refreshed: "200 \<le> status rr" "status rr < 300" "destructure_access (data rr) = Inr (Some access)"
    and second: "200 \<le> status r2" "status r2 < 300"
  shows "\<exists>t'. run (execute t cfg)
                 [Response (length (tasks t)) (Reply r1),
                  RefreshResponse (length (tasks t)) (Reply rr),
                  Response (length (tasks t)) (Reply r2)] = Some t'
            \<and> tasks t' ! length (tasks t) = Settled (Inr r2)
            \<and> sends t' = sends t @
                 [request_interceptor (storage t) cfg,
                  (request_interceptor (storage t) cfg)
                    \<lparr>cfg_retry := True, cfg_Authorization := Some (''Bearer '' @ access)\<rparr>]
            \<and> refresh_calls t' = refresh_calls t + 1
            \<and> getItem (storage t') ''access_token'' = Some access"
proof -
  let ?n = "length (tasks t)"
  let ?c1 = "request_interceptor (storage t) cfg"
  let ?tok = "getItem (storage t) ''refresh_token''"
  let ?c2 = "?c1\<lparr>cfg_retry := True, cfg_Authorization := Some (''Bearer '' @ access)\<rparr>"
  let ?t0 = "execute t cfg"
  let ?t1 = "?t0\<lparr>tasks := (tasks ?t0)[?n := AwaitRefresh (?c1\<lparr>cfg_retry := True\<rparr>) ?tok],
                 calls := calls ?t0 @ [RefreshPost ?tok]\<rparr>"
  let ?t2 = "?t1\<lparr>storage := setItem (storage ?t1) ''access_token'' access,
                 tasks := (tasks ?t1)[?n := AwaitResponse ?c2],
                 calls := calls ?t1 @ [Send ?c2]\<rparr>"
  let ?t3 = "?t2\<lparr>tasks := (tasks ?t2)[?n := Settled (Inr r2)]\<rparr>"
  have s1: "deliver ?t0 (Response ?n (Reply r1)) = Some ?t1"
    using deliver_unauthorized [of ?n ?t0 ?c1 r1] fresh first by (simp add: execute_eq)
  have s2: "deliver ?t1 (RefreshResponse ?n (Reply rr)) = Some ?t2"
    using deliver_refresh_ok [of ?n ?t1 "?c1\<lparr>cfg_retry := True\<rparr>" ?tok rr "Some access"] refreshed
    by (simp add: execute_eq)
  have s3: "deliver ?t2 (Response ?n (Reply r2)) = Some ?t3"
    using deliver_resolved [of ?n ?t2 ?c2 r2] second by (simp add: execute_eq)
  have "run ?t0 [Response ?n (Reply r1), RefreshResponse ?n (Reply rr), Response ?n (Reply r2)] = Some ?t3"
    by (simp only: run.simps s1 s2 s3 option.case)
  moreover have "tasks ?t3 ! ?n = Settled (Inr r2)"
    by (simp add: execute_eq)
  moreover have "sends ?t3 = sends t @ [?c1, ?c2]"
    by (simp add: execute_eq sends_def)
  moreover have "refresh_calls ?t3 = refresh_calls t + 1"
    by (simp add: execute_eq refresh_calls_def)
  moreover have "getItem (storage ?t3) ''access_token'' = Some access"
    by (simp add: getItem_def setItem_def)
  ultimately show ?thesis by blast
qed


theorem single_retry_witness:
  "\<not> cfg_retry get_x \<and> status unauthorized = 401
   \<and> 200 \<le> status refreshed_A2 \<and> status refreshed_A2 < 300
   \<and> destructure_access (data refreshed_A2) = Inr (Some ''A2'')
   \<and> 200 \<le> status ok_true \<and> status ok_true < 300
   \<and> (\<exists>t'. run (execute idle_A get_x)
                 [Response 0 (Reply unauthorized), RefreshResponse 0 (Reply refreshed_A2),
                  Response 0 (Reply ok_true)] = Some t'
            \<and> tasks t' ! 0 = Settled (Inr ok_true)
            \<and> sends t' =
                 [get_x\<lparr>cfg_Authorization := Some ''Bearer A1''\<rparr>,
                  get_x\<lparr>cfg_retry := True, cfg_Authorization := Some ''Bearer A2''\<rparr>]
            \<and> refresh_calls t' = 1
            \<and> getItem (storage t') ''access_token'' = Some ''A2'')"
proof -
  have h: "\<not> cfg_retry get_x" "status unauthorized = 401"
    "200 \<le> status refreshed_A2" "status refreshed_A2 < 300"
    "destructure_access (data refreshed_A2) = Inr (Some ''A2'')"
    "200 \<le> status ok_true" "status ok_true < 300"
    by (simp_all add: get_x_def unauthorized_def refreshed_A2_def ok_true_def)
  have i: "request_interceptor (storage idle_A) get_x = get_x\<lparr>cfg_Authorization := Some ''Bearer A1''\<rparr>"
    by (simp add: request_interceptor_def idle_A_def store_A_def getItem_def setItem_def)
  have e: "tasks idle_A = []" "sends idle_A = []" "refresh_calls idle_A = 0"
    by (simp_all add: idle_A_def sends_def refresh_calls_def)
  show ?thesis
    using single_retry [OF h, of idle_A] h by (simp add: i e)
qed

section \<open>ApiClient: refresh failure, repeated rejection, store update\<close>

lemma settle_refresh_error:
  "settle (RefreshPost tok) r = Inl e \<Longrightarrow> SessionExpired e"
  by (auto simp add: settle_def split: reply.splits if_splits)

text \<open>
  C4: a request that was not yet retried is answered 401 and its refresh exchange is
  rejected (no answer, or a status outside 2xx). The caller's promise is rejected with the
  error of the refresh exchange, both the access value and the refresh value are removed
  from the store, and the page is sent to \<open>/auth\<close>; the request is not resent.
\<close>

theorem refresh_failure_clears_store:
  assumes fresh: "\<not> cfg_retry cfg"
    and first: "status r1 = 401"
    and failed: "settle (RefreshPost (getItem (storage t) ''refresh_token'')) rf = Inl e"
  shows "\<exists>t'. run (execute t cfg)
                 [Response (length (tasks t)) (Reply r1),
                  RefreshResponse (length (tasks t)) rf] = Some t'
            \<and> tasks t' ! length (tasks t) = Settled (Inl e)
            \<and> SessionExpired e
            \<and> getItem (storage t') ''access_token'' = None
            \<and> getItem (storage t') ''refresh_token'' = None
            \<and> location_href t' = ''/auth''
            \<and> length (sends t') = length (sends t) + 1"
proof -
  let ?n = "length (tasks t)"
  let ?c1 = "request_interceptor (storage t) cfg"
  let ?tok = "getItem (storage t) ''refresh_token''"
  let ?t0 = "execute t cfg"
  let ?t1 = "?t0\<lparr>tasks := (tasks ?t0)[?n := AwaitRefresh (?c1\<lparr>cfg_retry := True\<rparr>) ?tok],
                 calls := calls ?t0 @ [RefreshPost ?tok]\<rparr>"
  let ?t2 = "refresh_rejected ?t1 ?n e"
  have s1: "deliver ?t0 (Response ?n (Reply r1)) = Some ?t1"
    using deliver_unauthorized [of ?n ?t0 ?c1 r1] fresh first by (simp add: execute_eq)
  have s2: "deliver ?t1 (RefreshResponse ?n rf) = Some ?t2"
    using deliver_refresh_failed [of ?n ?t1 "?c1\<lparr>cfg_retry := True\<rparr>" ?tok rf e] failed
    by (simp add: execute_eq)
  have "run ?t0 [Response ?n (Reply r1), RefreshResponse ?n rf] = Some ?t2"
    by (simp only: run.simps s1 s2 option.case)
  moreover have "tasks ?t2 ! ?n = Settled (Inl e)"
    by (simp add: refresh_rejected_def execute_eq)
  moreover have "SessionExpired e"
    using failed by (rule settle_refresh_error)
  moreover have "getItem (storage ?t2) ''access_token'' = None"
    "getItem (storage ?t2) ''refresh_token'' = None"
    by (simp_all add: refresh_rejected_def getItem_def removeItem_def)
  moreover have "location_href ?t2 = ''/auth''"
    by (simp add: refresh_rejected_def)
  moreover have "length (sends ?t2) = length (sends t) + 1"
    by (simp add: refresh_rejected_def execute_eq sends_def)
  ultimately show ?thesis by blast
qed

theorem refresh_failure_clears_store_witness:
  "\<not> cfg_retry get_x \<and> status unauthorized = 401
   \<and> settle (RefreshPost (getItem (storage idle_A) ''refresh_token'')) revoked
       = Inl (AxiosError (RefreshPost (Some ''R1'')) (Some \<lparr>status = 401, data = JNull\<rparr>))
   \<and> (\<exists>t'. run (execute idle_A get_x)
                 [Response 0 (Reply unauthorized), RefreshResponse 0 revoked] = Some t'
            \<and> tasks t' ! 0 = Settled (Inl (AxiosError (RefreshPost (Some ''R1'')) (Some \<lparr>status = 401, data = JNull\<rparr>)))
            \<and> getItem (storage t') ''access_token'' = None
            \<and> getItem (storage t') ''refresh_token'' = None
            \<and> location_href t' = ''/auth'')"
proof -
  have h: "\<not> cfg_retry get_x" "status unauthorized = 401"
    "settle (RefreshPost (getItem (storage idle_A) ''refresh_token'')) revoked
       = Inl (AxiosError (RefreshPost (Some ''R1'')) (Some \<lparr>status = 401, data = JNull\<rparr>))"
    by (simp_all add: get_x_def unauthorized_def revoked_def settle_def idle_A_def store_A_def
        getItem_def setItem_def)
  have e: "tasks idle_A = []"
    by (simp add: idle_A_def)
  show ?thesis
    using refresh_failure_clears_store [OF h] h by (auto simp add: e)
qed

text \<open>
  Scenario A with the resent request answered 401 as well: the caller's promise is rejected
  with the 401 error of the resent request, which is not the rejection of the refresh
  failure path, and the store keeps the refreshed access value.
\<close>

theorem no_double_retry_counterexample:
  "outcome (run (execute idle_A get_x)
              [Response 0 (Reply unauthorized), RefreshResponse 0 (Reply refreshed_A2),
               Response 0 (Reply unauthorized)]) 0
     = Some (Inl (AxiosError (Send (get_x\<lparr>cfg_retry := True, cfg_Authorization := Some ''Bearer A2''\<rparr>))
                    (Some unauthorized)))
   \<and> \<not> SessionExpired (AxiosError (Send (get_x\<lparr>cfg_retry := True, cfg_Authorization := Some ''Bearer A2''\<rparr>))
                          (Some unauthorized))
   \<and> stored (run (execute idle_A get_x)
              [Response 0 (Reply unauthorized), RefreshResponse 0 (Reply refreshed_A2),
               Response 0 (Reply unauthorized)]) ''access_token'' = Some (Some ''A2'')"
  by (simp add: outcome_def stored_def execute_def client_def request_interceptor_def idle_A_def
      store_A_def get_x_def unauthorized_def refreshed_A2_def settle_def response_rejected_def
      refresh_resolved_def getItem_def setItem_def Let_def)

lemma deliver_settled:
  assumes "i < length (tasks t)" "tasks t ! i = Settled res"
  shows "deliver t (Response i r) = None" "deliver t (RefreshResponse i r) = None"
  using assms by simp_all

text \<open>
  C3, as the code has it: a request that was not yet retried is answered 401, its refresh
  exchange resolves, and the resent request is answered 401 again. The caller's promise is
  rejected with the 401 error of the resent request itself. Exactly one refresh exchange
  and two sends were made, no further answer is awaited for the request (no second
  cycle), the store keeps the refreshed access value and the page is not redirected.
\<close>

theorem no_double_retry:
  assumes fresh: "\<not> cfg_retry cfg"
    and first: "status r1 = 401"
    and refreshed: "200 \<le> status rr" "status rr < 300" "destructure_access (data rr) = Inr access"
    and second: "status r2 = 401"
  shows "\<exists>t' c2. run (execute t cfg)
                 [Response (length (tasks t)) (Reply r1),
                  RefreshResponse (length (tasks t)) (Reply rr),
                  Response (length (tasks t)) (Reply r2)] = Some t'
            \<and> c2 = (request_interceptor (storage t) cfg)
                     \<lparr>cfg_retry := True, cfg_Authorization := Some (''Bearer '' @ String access)\<rparr>
            \<and> tasks t' ! length (tasks t) = Settled (Inl (AxiosError (Send c2) (Some r2)))
            \<and> Unauthorized (AxiosError (Send c2) (Some r2))
            \<and> \<not> SessionExpired (AxiosError (Send c2) (Some r2))
            \<and> refresh_calls t' = refresh_calls t + 1
            \<and> sends t' = sends t @ [request_interceptor (storage t) cfg, c2]
            \<and> deliver t' (Response (length (tasks t)) r3) = None
            \<and> deliver t' (RefreshResponse (length (tasks t)) r4) = None
            \<and> getItem (storage t') ''access_token'' = Some (String access)
            \<and> getItem (storage t') ''refresh_token'' = getItem (storage t) ''refresh_token''
            \<and> location_href t' = location_href t"
proof -
  let ?n = "length (tasks t)"
  let ?c1 = "request_interceptor (storage t) cfg"
  let ?tok = "getItem (storage t) ''refresh_token''"
  let ?c2 = "?c1\<lparr>cfg_retry := True, cfg_Authorization := Some (''Bearer '' @ String access)\<rparr>"
  let ?t0 = "execute t cfg"
  let ?t1 = "?t0\<lparr>tasks := (tasks ?t0)[?n := AwaitRefresh (?c1\<lparr>cfg_retry := True\<rparr>) ?tok],
                 calls := calls ?t0 @ [RefreshPost ?tok]\<rparr>"
  let ?t2 = "?t1\<lparr>storage := setItem (storage ?t1) ''access_token'' (String access),
                 tasks := (tasks ?t1)[?n := AwaitResponse ?c2],
                 calls := calls ?t1 @ [Send ?c2]\<rparr>"
  let ?t3 = "?t2\<lparr>tasks := (tasks ?t2)[?n := Settled (Inl (AxiosError (Send ?c2) (Some r2)))]\<rparr>"
  have s1: "deliver ?t0 (Response ?n (Reply r1)) = Some ?t1"
    using deliver_unauthorized [of ?n ?t0 ?c1 r1] fresh first by (simp add: execute_eq)
  have s2: "deliver ?t1 (RefreshResponse ?n (Reply rr)) = Some ?t2"
    using deliver_refresh_ok [of ?n ?t1 "?c1\<lparr>cfg_retry := True\<rparr>" ?tok rr access] refreshed
    by (simp add: execute_eq)
  have s3: "deliver ?t2 (Response ?n (Reply r2)) = Some ?t3"
    using deliver_retried_unauthorized [of ?n ?t2 ?c2 r2] second by (simp add: execute_eq)
  have "run ?t0 [Response ?n (Reply r1), RefreshResponse ?n (Reply rr), Response ?n (Reply r2)] = Some ?t3"
    by (simp only: run.simps s1 s2 s3 option.case)
  moreover have "tasks ?t3 ! ?n = Settled (Inl (AxiosError (Send ?c2) (Some r2)))"
    by (simp add: execute_eq)
  moreover have "Unauthorized (AxiosError (Send ?c2) (Some r2))"
    "\<not> SessionExpired (AxiosError (Send ?c2) (Some r2))"
    using second by simp_all
  moreover have "refresh_calls ?t3 = refresh_calls t + 1"
    by (simp add: execute_eq refresh_calls_def)
  moreover have "sends ?t3 = sends t @ [?c1, ?c2]"
    by (simp add: execute_eq sends_def)
  moreover have "deliver ?t3 (Response ?n r3) = None" "deliver ?t3 (RefreshResponse ?n r4) = None"
    by (simp_all add: execute_eq)
  moreover have "getItem (storage ?t3) ''access_token'' = Some (String access)"
    "getItem (storage ?t3) ''refresh_token'' = getItem (storage t) ''refresh_token''"
    by (simp_all add: getItem_def setItem_def execute_eq)
  moreover have "location_href ?t3 = location_href t"
    by (simp add: execute_eq)
  ultimately show ?thesis by blast
qed

theorem no_double_retry_witness:
  "\<not> cfg_retry get_x \<and> status unauthorized = 401
   \<and> 200 \<le> status refreshed_A2 \<and> status refreshed_A2 < 300
   \<and> destructure_access (data refreshed_A2) = Inr (Some ''A2'')
   \<and> (\<exists>t'. run (execute idle_A get_x)
                 [Response 0 (Reply unauthorized), RefreshResponse 0 (Reply refreshed_A2),
                  Response 0 (Reply unauthorized)] = Some t'
            \<and> tasks t' ! 0 = Settled (Inl (AxiosError
                  (Send (get_x\<lparr>cfg_retry := True, cfg_Authorization := Some ''Bearer A2''\<rparr>))
                  (Some unauthorized)))
            \<and> refresh_calls t' = 1
            \<and> length (sends t') = 2
            \<and> deliver t' (Response 0 (Reply unauthorized)) = None
            \<and> getItem (storage t') ''access_token'' = Some ''A2''
            \<and> getItem (storage t') ''refresh_token'' = Some ''R1''
            \<and> location_href t' = ''/'')"
proof -
  have h: "\<not> cfg_retry get_x" "status unauthorized = 401"
    "200 \<le> status refreshed_A2" "status refreshed_A2 < 300"
    "destructure_access (data refreshed_A2) = Inr (Some ''A2'')"
    "status unauthorized = 401"
    by (simp_all add: get_x_def unauthorized_def refreshed_A2_def)
  have i: "request_interceptor (storage idle_A) get_x = get_x\<lparr>cfg_Authorization := Some ''Bearer A1''\<rparr>"
    by (simp add: request_interceptor_def idle_A_def store_A_def getItem_def setItem_def)
  have e: "tasks idle_A = []" "sends idle_A = []" "refresh_calls idle_A = 0"
    "getItem (storage idle_A) ''refresh_token'' = Some ''R1''" "location_href idle_A = ''/''"
    by (simp_all add: idle_A_def sends_def refresh_calls_def store_A_def getItem_def setItem_def)
  show ?thesis
    using no_double_retry [OF h, of idle_A "Reply unauthorized" "Reply unauthorized"] h
    by (auto simp add: i e)
qed

text \<open>
  Scenario A with a server that rotates the refresh value: after the refresh exchange the
  store holds the new access value \<open>A2\<close> beside the old refresh value \<open>R1\<close>; the rotated
  value \<open>R2\<close> is not stored.
\<close>

theorem refresh_rotation_counterexample:
  "stored (run (execute idle_A get_x)
             [Response 0 (Reply unauthorized), RefreshResponse 0 (Reply rotated_A2_R2)])
     ''refresh_token'' = Some (Some ''R1'')
   \<and> stored (run (execute idle_A get_x)
             [Response 0 (Reply unauthorized), RefreshResponse 0 (Reply rotated_A2_R2)])
     ''access_token'' = Some (Some ''A2'')"
  by (simp add: stored_def execute_def client_def request_interceptor_def idle_A_def
      store_A_def get_x_def unauthorized_def rotated_A2_R2_def settle_def response_rejected_def
      refresh_resolved_def getItem_def setItem_def Let_def)

text \<open>
  C5, as the code has it: when the refresh exchange of a waiting request resolves, the
  store is changed by a single write of the new access value under \<open>access_token\<close>. Every
  other key, the refresh value among them, is left as it was, whatever the answer
  carries.
\<close>

theorem refresh_success_store:
  assumes fresh: "\<not> cfg_retry cfg"
    and first: "status r1 = 401"
    and refreshed: "200 \<le> status rr" "status rr < 300" "destructure_access (data rr) = Inr access"
  shows "\<exists>t'. run (execute t cfg)
                 [Response (length (tasks t)) (Reply r1),
                  RefreshResponse (length (tasks t)) (Reply rr)] = Some t'
            \<and> storage t' = setItem (storage t) ''access_token'' (String access)
            \<and> getItem (storage t') ''access_token'' = Some (String access)
            \<and> getItem (storage t') ''refresh_token'' = getItem (storage t) ''refresh_token''"
proof -
  let ?n = "length (tasks t)"
  let ?c1 = "request_interceptor (storage t) cfg"
  let ?tok = "getItem (storage t) ''refresh_token''"
  let ?c2 = "?c1\<lparr>cfg_retry := True, cfg_Authorization := Some (''Bearer '' @ String access)\<rparr>"
  let ?t0 = "execute t cfg"
  let ?t1 = "?t0\<lparr>tasks := (tasks ?t0)[?n := AwaitRefresh (?c1\<lparr>cfg_retry := True\<rparr>) ?tok],
                 calls := calls ?t0 @ [RefreshPost ?tok]\<rparr>"
  let ?t2 = "?t1\<lparr>storage := setItem (storage ?t1) ''access_token'' (String access),
                 tasks := (tasks ?t1)[?n := AwaitResponse ?c2],
                 calls := calls ?t1 @ [Send ?c2]\<rparr>"
  have s1: "deliver ?t0 (Response ?n (Reply r1)) = Some ?t1"
    using deliver_unauthorized [of ?n ?t0 ?c1 r1] fresh first by (simp add: execute_eq)
  have s2: "deliver ?t1 (RefreshResponse ?n (Reply rr)) = Some ?t2"
    using deliver_refresh_ok [of ?n ?t1 "?c1\<lparr>cfg_retry := True\<rparr>" ?tok rr access] refreshed
    by (simp add: execute_eq)
  have "run ?t0 [Response ?n (Reply r1), RefreshResponse ?n (Reply rr)] = Some ?t2"
    by (simp only: run.simps s1 s2 option.case)
  moreover have "storage ?t2 = setItem (storage t) ''access_token'' (String access)"
    by (simp add: execute_eq)
  moreover have "getItem (storage ?t2) ''access_token'' = Some (String access)"
    "getItem (storage ?t2) ''refresh_token'' = getItem (storage t) ''refresh_token''"
    by (simp_all add: getItem_def setItem_def execute_eq)
  ultimately show ?thesis by blast
qed

theorem refresh_success_store_witness:
  "\<not> cfg_retry get_x \<and> status unauthorized = 401
   \<and> 200 \<le> status rotated_A2_R2 \<and> status rotated_A2_R2 < 300
   \<and> destructure_access (data rotated_A2_R2) = Inr (Some ''A2'')
   \<and> (\<exists>t'. run (execute idle_A get_x)
                 [Response 0 (Reply unauthorized), RefreshResponse 0 (Reply rotated_A2_R2)] = Some t'
            \<and> storage t' = setItem store_A ''access_token'' ''A2''
            \<and> getItem (storage t') ''access_token'' = Some ''A2''
            \<and> getItem (storage t') ''refresh_token'' = Some ''R1'')"
proof -
  have h: "\<not> cfg_retry get_x" "status unauthorized = 401"
    "200 \<le> status rotated_A2_R2" "status rotated_A2_R2 < 300"
    "destructure_access (data rotated_A2_R2) = Inr (Some ''A2'')"
    by (simp_all add: get_x_def unauthorized_def rotated_A2_R2_def)
  have e: "tasks idle_A = []" "storage idle_A = store_A"
    "getItem store_A ''refresh_token'' = Some ''R1''"
    by (simp_all add: idle_A_def store_A_def getItem_def setItem_def)
  show ?thesis
    using refresh_success_store [OF h, of idle_A] h by (auto simp add: e)
qed

section \<open>ApiClient: a burst of rejected requests\<close>

lemma first_attempt_iff:
  "first_attempt p \<longleftrightarrow> (\<exists>cfg. p = AwaitResponse cfg \<and> \<not> cfg_retry cfg)"
  by (cases p) auto

lemma burst_refreshes:
  assumes "distinct js"
    and "\<forall>i\<in>set js. i < length (tasks t) \<and> first_attempt (tasks t ! i)"
    and "status r = 401"
  shows "\<exists>t'. run t (burst js r) = Some t'
           \<and> calls t' = calls t @ replicate (length js) (RefreshPost (getItem (storage t) ''refresh_token''))
           \<and> storage t' = storage t
           \<and> location_href t' = location_href t
           \<and> length (tasks t') = length (tasks t)
           \<and> (\<forall>i\<in>set js. \<exists>cfg. tasks t ! i = AwaitResponse cfg
                 \<and> tasks t' ! i = AwaitRefresh (cfg\<lparr>cfg_retry := True\<rparr>) (getItem (storage t) ''refresh_token''))
           \<and> (\<forall>i. i \<notin> set js \<longrightarrow> tasks t' ! i = tasks t ! i)"
  using assms
proof (induction js arbitrary: t)
  case Nil
  then show ?case by (simp add: burst_def)
next
  case (Cons j js)
  let ?tok = "getItem (storage t) ''refresh_token''"
  from Cons.prems obtain cfg where j: "j < length (tasks t)" "tasks t ! j = AwaitResponse cfg" "\<not> cfg_retry cfg"
    by (auto simp add: first_attempt_iff)
  let ?t1 = "t\<lparr>tasks := (tasks t)[j := AwaitRefresh (cfg\<lparr>cfg_retry := True\<rparr>) ?tok],
               calls := calls t @ [RefreshPost ?tok]\<rparr>"
  have s1: "deliver t (Response j (Reply r)) = Some ?t1"
    using deliver_unauthorized [OF j] Cons.prems(3) by simp
  have d: "distinct js" and nj: "j \<notin> set js"
    using Cons.prems(1) by simp_all
  have p: "\<forall>i\<in>set js. i < length (tasks ?t1) \<and> first_attempt (tasks ?t1 ! i)"
  proof
    fix i assume i: "i \<in> set js"
    then have "i \<noteq> j" using nj by auto
    then have "tasks ?t1 ! i = tasks t ! i" by simp
    then show "i < length (tasks ?t1) \<and> first_attempt (tasks ?t1 ! i)"
      using Cons.prems(2) i by simp
  qed
  from Cons.IH [OF d p Cons.prems(3)] obtain t' where
    r: "run ?t1 (burst js r) = Some t'"
    and c: "calls t' = calls ?t1 @ replicate (length js) (RefreshPost (getItem (storage ?t1) ''refresh_token''))"
    and st: "storage t' = storage ?t1" "location_href t' = location_href ?t1"
      "length (tasks t') = length (tasks ?t1)"
    and a: "\<forall>i\<in>set js. \<exists>cfg. tasks ?t1 ! i = AwaitResponse cfg
                 \<and> tasks t' ! i = AwaitRefresh (cfg\<lparr>cfg_retry := True\<rparr>) (getItem (storage ?t1) ''refresh_token'')"
    and f: "\<forall>i. i \<notin> set js \<longrightarrow> tasks t' ! i = tasks ?t1 ! i"
    by blast
  have "run t (burst (j # js) r) = Some t'"
    using s1 r by (simp add: burst_def)
  moreover have "calls t' = calls t @ replicate (length (j # js)) (RefreshPost ?tok)"
    using c by (simp add: replicate_append_same)
  moreover have "storage t' = storage t" "location_href t' = location_href t"
    "length (tasks t') = length (tasks t)"
    using st by simp_all
  moreover have "\<forall>i\<in>set (j # js). \<exists>cfg. tasks t ! i = AwaitResponse cfg
                 \<and> tasks t' ! i = AwaitRefresh (cfg\<lparr>cfg_retry := True\<rparr>) ?tok"
  proof
    fix i assume i: "i \<in> set (j # js)"
    show "\<exists>cfg. tasks t ! i = AwaitResponse cfg
                 \<and> tasks t' ! i = AwaitRefresh (cfg\<lparr>cfg_retry := True\<rparr>) ?tok"
    proof (cases "i = j")
      case True
      then show ?thesis using f nj j by simp
    next
      case False
      then have "i \<in> set js" using i by simp
      with a False show ?thesis by auto
    qed
  qed
  moreover have "\<forall>i. i \<notin> set (j # js) \<longrightarrow> tasks t' ! i = tasks t ! i"
    using f by auto
  ultimately show ?case by blast
qed

lemma own_refresh_failed:
  assumes "i < length (tasks t)" "tasks t ! i = AwaitRefresh cfg tok" "settle (RefreshPost tok) rf = Inl e"
  shows "\<exists>u. deliver t (RefreshResponse i rf) = Some u \<and> tasks u ! i = Settled (Inl e)
           \<and> (\<forall>j. j \<noteq> i \<longrightarrow> tasks u ! j = tasks t ! j)"
  using assms by (simp add: refresh_rejected_def)

lemma own_refresh_ok:
  assumes "i < length (tasks t)" "tasks t ! i = AwaitRefresh cfg tok"
    "200 \<le> status rr" "status rr < 300" "destructure_access (data rr) = Inr access"
  shows "\<exists>u. deliver t (RefreshResponse i (Reply rr)) = Some u
           \<and> tasks u ! i = AwaitResponse (cfg\<lparr>cfg_Authorization := Some (''Bearer '' @ String access)\<rparr>)
           \<and> (\<forall>j. j \<noteq> i \<longrightarrow> tasks u ! j = tasks t ! j)"
  using deliver_refresh_ok [OF assms] assms(1) by simp

text \<open>
  C1, as the code has it: the interceptor has no shared refresh in flight. When the
  requests \<open>js\<close>, all in flight and not yet retried, are each answered 401, every one of
  them issues its own refresh exchange with the stored refresh value: as many refresh
  calls as requests. Each request then waits for its own exchange, and the answer to that
  exchange settles or resends that request alone: a rejected exchange rejects it with the
  refresh error, a resolved one resends it with the new access value; every other request
  stays as it was.
\<close>

theorem refresh_per_request:
  assumes "distinct js"
    and "\<forall>i\<in>set js. i < length (tasks t) \<and> first_attempt (tasks t ! i)"
    and "status r = 401"
  shows "\<exists>t'. run t (burst js r) = Some t'
           \<and> refresh_calls t' = refresh_calls t + length js
           \<and> sends t' = sends t
           \<and> storage t' = storage t
           \<and> (\<forall>i\<in>set js. \<exists>cfg tok.
                 tasks t ! i = AwaitResponse cfg
               \<and> tok = getItem (storage t) ''refresh_token''
               \<and> tasks t' ! i = AwaitRefresh (cfg\<lparr>cfg_retry := True\<rparr>) tok
               \<and> (\<forall>rf e. settle (RefreshPost tok) rf = Inl e \<longrightarrow>
                     (\<exists>u. deliver t' (RefreshResponse i rf) = Some u
                        \<and> tasks u ! i = Settled (Inl e)
                        \<and> (\<forall>j. j \<noteq> i \<longrightarrow> tasks u ! j = tasks t' ! j)))
               \<and> (\<forall>rr access. 200 \<le> status rr \<and> status rr < 300
                       \<and> destructure_access (data rr) = Inr access \<longrightarrow>
                     (\<exists>u. deliver t' (RefreshResponse i (Reply rr)) = Some u
                        \<and> tasks u ! i = AwaitResponse
                             (cfg\<lparr>cfg_retry := True,
                                  cfg_Authorization := Some (''Bearer '' @ String access)\<rparr>)
                        \<and> (\<forall>j. j \<noteq> i \<longrightarrow> tasks u ! j = tasks t' ! j))))"
proof -
  let ?tok = "getItem (storage t) ''refresh_token''"
  from burst_refreshes [OF assms] obtain t' where
    r: "run t (burst js r) = Some t'"
    and c: "calls t' = calls t @ replicate (length js) (RefreshPost ?tok)"
    and st: "storage t' = storage t" "length (tasks t') = length (tasks t)"
    and a: "\<forall>i\<in>set js. \<exists>cfg. tasks t ! i = AwaitResponse cfg
                 \<and> tasks t' ! i = AwaitRefresh (cfg\<lparr>cfg_retry := True\<rparr>) ?tok"
    by blast
  have n: "refresh_calls t' = refresh_calls t + length js"
    using c by (simp add: refresh_calls_def)
  have s: "sends t' = sends t"
    using c by (simp add: sends_def)
  have "\<exists>cfg tok.
                 tasks t ! i = AwaitResponse cfg
               \<and> tok = ?tok
               \<and> tasks t' ! i = AwaitRefresh (cfg\<lparr>cfg_retry := True\<rparr>) tok
               \<and> (\<forall>rf e. settle (RefreshPost tok) rf = Inl e \<longrightarrow>
                     (\<exists>u. deliver t' (RefreshResponse i rf) = Some u
                        \<and> tasks u ! i = Settled (Inl e)
                        \<and> (\<forall>j. j \<noteq> i \<longrightarrow> tasks u ! j = tasks t' ! j)))
               \<and> (\<forall>rr access. 200 \<le> status rr \<and> status rr < 300
                       \<and> destructure_access (data rr) = Inr access \<longrightarrow>
                     (\<exists>u. deliver t' (RefreshResponse i (Reply rr)) = Some u
                        \<and> tasks u ! i = AwaitResponse
                             (cfg\<lparr>cfg_retry := True,
                                  cfg_Authorization := Some (''Bearer '' @ String access)\<rparr>)
                        \<and> (\<forall>j. j \<noteq> i \<longrightarrow> tasks u ! j = tasks t' ! j)))"
    if i: "i \<in> set js" for i
  proof -
    from a i obtain cfg where cfg: "tasks t ! i = AwaitResponse cfg"
      "tasks t' ! i = AwaitRefresh (cfg\<lparr>cfg_retry := True\<rparr>) ?tok"
      by blast
    have l: "i < length (tasks t')"
      using assms(2) i st by simp
    have "\<exists>u. deliver t' (RefreshResponse i rf) = Some u
                        \<and> tasks u ! i = Settled (Inl e)
                        \<and> (\<forall>j. j \<noteq> i \<longrightarrow> tasks u ! j = tasks t' ! j)"
      if "settle (RefreshPost ?tok) rf = Inl e" for rf e
      using own_refresh_failed [OF l cfg(2) that] .
    moreover have "\<exists>u. deliver t' (RefreshResponse i (Reply rr)) = Some u
                        \<and> tasks u ! i = AwaitResponse
                             (cfg\<lparr>cfg_retry := True,
                                  cfg_Authorization := Some (''Bearer '' @ String access)\<rparr>)
                        \<and> (\<forall>j. j \<noteq> i \<longrightarrow> tasks u ! j = tasks t' ! j)"
      if "200 \<le> status rr \<and> status rr < 300 \<and> destructure_access (data rr) = Inr access"
      for rr access
      using own_refresh_ok [OF l cfg(2), of rr access] that by simp
    ultimately show ?thesis using cfg by blast
  qed
  with r n s st(1) show ?thesis by blast
qed

text \<open>
  Two requests in flight, both answered 401: two refresh exchanges are issued, not one.
\<close>

theorem refresh_coalescing_counterexample:
  "map_option refresh_calls (run two_in_flight (burst [0, 1] unauthorized)) = Some 2"
  by (simp add: two_in_flight_def burst_def refresh_calls_def execute_def client_def
      request_interceptor_def idle_A_def store_A_def get_x_def get_y_def unauthorized_def
      settle_def response_rejected_def getItem_def setItem_def Let_def)

lemma two_in_flight_tasks:
  "tasks two_in_flight =
     [AwaitResponse (get_x\<lparr>cfg_Authorization := Some ''Bearer A1''\<rparr>),
      AwaitResponse (get_y\<lparr>cfg_Authorization := Some ''Bearer A1''\<rparr>)]"
  by (simp add: two_in_flight_def execute_def client_def request_interceptor_def idle_A_def
      store_A_def getItem_def setItem_def Let_def)

theorem refresh_per_request_witness:
  "distinct [1, 0 :: nat]
   \<and> tasks two_in_flight =
       [AwaitResponse (get_x\<lparr>cfg_Authorization := Some ''Bearer A1''\<rparr>),
        AwaitResponse (get_y\<lparr>cfg_Authorization := Some ''Bearer A1''\<rparr>)]
   \<and> first_attempt (tasks two_in_flight ! 0) \<and> first_attempt (tasks two_in_flight ! 1)
   \<and> status unauthorized = 401
   \<and> (\<exists>t'. run two_in_flight (burst [1, 0] unauthorized) = Some t'
          \<and> refresh_calls t' = 2
          \<and> sends t' = sends two_in_flight
          \<and> tasks t' ! 0 = AwaitRefresh (get_x\<lparr>cfg_Authorization := Some ''Bearer A1'', cfg_retry := True\<rparr>) (Some ''R1'')
          \<and> tasks t' ! 1 = AwaitRefresh (get_y\<lparr>cfg_Authorization := Some ''Bearer A1'', cfg_retry := True\<rparr>) (Some ''R1''))"
proof -
  have h: "distinct [1, 0 :: nat]"
    "\<forall>i\<in>set [1, 0]. i < length (tasks two_in_flight) \<and> first_attempt (tasks two_in_flight ! i)"
    "status unauthorized = 401"
    by (simp_all add: two_in_flight_tasks get_x_def get_y_def unauthorized_def)
  have e: "refresh_calls two_in_flight = 0" "getItem (storage two_in_flight) ''refresh_token'' = Some ''R1''"
    by (simp_all add: two_in_flight_def refresh_calls_def execute_def client_def idle_A_def
        store_A_def getItem_def setItem_def Let_def)
  from refresh_per_request [OF h] obtain t' where
    r: "run two_in_flight (burst [1, 0] unauthorized) = Some t'"
      "refresh_calls t' = refresh_calls two_in_flight + length [1, 0 :: nat]"
      "sends t' = sends two_in_flight"
    and a: "\<forall>i\<in>set [1, 0]. \<exists>cfg tok.
                 tasks two_in_flight ! i = AwaitResponse cfg
               \<and> tok = getItem (storage two_in_flight) ''refresh_token''
               \<and> tasks t' ! i = AwaitRefresh (cfg\<lparr>cfg_retry := True\<rparr>) tok
               \<and> (\<forall>rf e. settle (RefreshPost tok) rf = Inl e \<longrightarrow>
                     (\<exists>u. deliver t' (RefreshResponse i rf) = Some u
                        \<and> tasks u ! i = Settled (Inl e)
                        \<and> (\<forall>j. j \<noteq> i \<longrightarrow> tasks u ! j = tasks t' ! j)))
               \<and> (\<forall>rr access. 200 \<le> status rr \<and> status rr < 300
                       \<and> destructure_access (data rr) = Inr access \<longrightarrow>
                     (\<exists>u. deliver t' (RefreshResponse i (Reply rr)) = Some u
                        \<and> tasks u ! i = AwaitResponse
                             (cfg\<lparr>cfg_retry := True,
                                  cfg_Authorization := Some (''Bearer '' @ String access)\<rparr>)
                        \<and> (\<forall>j. j \<noteq> i \<longrightarrow> tasks u ! j = tasks t' ! j)))"
    by (elim exE conjE)
  from a have "\<exists>cfg. tasks two_in_flight ! 0 = AwaitResponse cfg
      \<and> tasks t' ! 0 = AwaitRefresh (cfg\<lparr>cfg_retry := True\<rparr>) (getItem (storage two_in_flight) ''refresh_token'')"
    "\<exists>cfg. tasks two_in_flight ! 1 = AwaitResponse cfg
      \<and> tasks t' ! 1 = AwaitRefresh (cfg\<lparr>cfg_retry := True\<rparr>) (getItem (storage two_in_flight) ''refresh_token'')"
    by auto
  then have "tasks t' ! 0 = AwaitRefresh (get_x\<lparr>cfg_Authorization := Some ''Bearer A1'', cfg_retry := True\<rparr>) (Some ''R1'')"
    "tasks t' ! 1 = AwaitRefresh (get_y\<lparr>cfg_Authorization := Some ''Bearer A1'', cfg_retry := True\<rparr>) (Some ''R1'')"
    by (simp_all add: two_in_flight_tasks e)
  with r h show ?thesis
    by (simp add: e two_in_flight_tasks get_x_def get_y_def)
qed

section \<open>useWebSocket: inbound messages and the authentication flag\<close>

text \<open>
  C8: an inbound payload on an open socket that the parser rejects. The only effect of
  the event is one \<open>console.error\<close> line: the \<open>onMessage\<close> callback is not invoked, the
  payload is dropped, and the socket, \<open>isConnected\<close>, the refs and the timers are as
  before, so the connection stays open.
\<close>

theorem malformed_message_dropped:
  assumes "i < length (sockets h)"
    and "ws_readyState (sockets h ! i) = OPEN"
    and "JSON_parse payload = None"
  shows "\<exists>h'. step JSON_parse opts h (WsMessage i payload) = Some h'
           \<and> h' = h\<lparr>outputs := outputs h @ [Console_error ''Failed to parse WebSocket message:'']\<rparr>
           \<and> OnMessage m \<notin> set (drop (length (outputs h)) (outputs h'))
           \<and> length (filter (\<lambda>x. x = Console_error ''Failed to parse WebSocket message:'')
                 (drop (length (outputs h)) (outputs h'))) = 1
           \<and> ws_readyState (sockets h' ! i) = OPEN
           \<and> isConnected h' = isConnected h
           \<and> pending_timers h' = pending_timers h"
  using assms by (simp add: onmessage_def pending_timers_def)

theorem malformed_message_dropped_witness:
  "0 < length (sockets open_channel)
   \<and> ws_readyState (sockets open_channel ! 0) = OPEN
   \<and> toy_parse ''not json'' = None
   \<and> step toy_parse default_options open_channel (WsMessage 0 ''not json'')
       = Some (open_channel\<lparr>outputs := [Console_log ''WebSocket connected'',
                                          Console_error ''Failed to parse WebSocket message:'']\<rparr>)"
proof -
  have h: "0 < length (sockets open_channel)" "ws_readyState (sockets open_channel ! 0) = OPEN"
    "toy_parse ''not json'' = None"
    by (simp_all add: open_channel_def toy_parse_def)
  have o: "outputs open_channel = [Console_log ''WebSocket connected'']"
    by (simp add: open_channel_def)
  from malformed_message_dropped [of 0 open_channel toy_parse "''not json''" default_options] h
  have "step toy_parse default_options open_channel (WsMessage 0 ''not json'')
       = Some (open_channel\<lparr>outputs := outputs open_channel @ [Console_error ''Failed to parse WebSocket message:'']\<rparr>)"
    by blast
  with h show ?thesis by (simp add: o)
qed

lemma open_channel_reached:
  "steps toy_parse default_options (mount default_options store_A True) [WsOpen 0] = Some open_channel"
  by (simp add: mount_def effect_def connect_def default_options_def onopen_def store_A_def
      getItem_def setItem_def Let_def open_channel_def)

lemma mount_signed_out:
  "mount opts ls False =
     \<lparr>isConnected = False, reconnectCount = 0, isAuthenticated = False,
      rendered = \<lparr>r_isAuthenticated = False, r_reconnectCount = 0\<rparr>,
      wsRef = None, reconnectTimeoutRef = None, sockets = [], timers = [],
      local_storage = ls, outputs = []\<rparr>"
  by (simp add: mount_def effect_def)

lemma step_signed_out:
  assumes "step JSON_parse opts (mount opts ls False) e = Some h'" "e \<noteq> SetAuthenticated True"
  shows "h' = mount opts ls False"
proof (cases e)
  case (SetAuthenticated b)
  with assms show ?thesis by (simp add: mount_signed_out)
next
  case Rerender
  with assms show ?thesis by (simp add: mount_signed_out rerender_def)
next
  case Disconnect
  with assms show ?thesis by (simp add: mount_signed_out disconnect_def)
next
  case (WsOpen i)
  with assms show ?thesis by (simp add: mount_signed_out)
next
  case (WsMessage i d)
  with assms show ?thesis by (simp add: mount_signed_out)
next
  case (WsError i)
  with assms show ?thesis by (simp add: mount_signed_out)
next
  case (WsClose i)
  with assms show ?thesis by (simp add: mount_signed_out)
next
  case (TimerFire k)
  with assms show ?thesis by (simp add: mount_signed_out)
qed

lemma steps_signed_out:
  assumes "steps JSON_parse opts (mount opts ls False) evs = Some h" "SetAuthenticated True \<notin> set evs"
  shows "h = mount opts ls False"
  using assms
proof (induction evs)
  case Nil
  then show ?case by simp
next
  case (Cons e es)
  from Cons.prems(1) obtain h1 where
    s: "step JSON_parse opts (mount opts ls False) e = Some h1"
    and r: "steps JSON_parse opts h1 es = Some h"
    by (auto split: option.splits)
  from Cons.prems(2) have "e \<noteq> SetAuthenticated True" "SetAuthenticated True \<notin> set es"
    by auto
  with step_signed_out [OF s] r Cons.IH show ?case by simp
qed

text \<open>
  The gate is the \<open>isAuthenticated\<close> flag, not the stored access value. Mounted in a
  session whose flag is true over a store with no access value, the hook opens a socket
  with \<open>token=null\<close>. And a socket made while the flag was true reconnects after the flag
  has turned false: on the open channel, sign-out, render, the \<open>close\<close> event and the
  timer leave a new connecting socket in a session whose flag is false.
\<close>

theorem connect_without_access_counterexample:
  "getItem (local_storage (mount default_options Map.empty True :: string hook)) ''access_token'' = None
   \<and> map ws_url (sockets (mount default_options Map.empty True :: string hook))
       = [''ws://localhost:8000/ws/dashboard/?token=null'']
   \<and> summary (mount default_options Map.empty True :: string hook) = (0, [CONNECTING], [], Some 0)
   \<and> map_option isAuthenticated (steps toy_parse default_options open_channel sign_out_events)
       = Some False
   \<and> map_option summary (steps toy_parse default_options open_channel sign_out_events)
       = Some (1, [CLOSED, CONNECTING], [Fired], Some 1)"
  by (simp add: summary_def mount_def effect_def connect_def default_options_def getItem_def
      sign_out_events_def open_channel_def rerender_def disconnect_def ws_close_def onclose_def
      reconnect_def store_A_def setItem_def Let_def)

text \<open>
  C9, as the code has it: \<open>connect\<close> tests the \<open>isAuthenticated\<close> flag of its render and
  never the stored access value. A hook mounted while the flag is false stays idle for as
  long as the flag is not set, under every schedule of events and whatever the store
  holds: its state is the one of the mount, with no socket made, \<open>wsRef\<close> empty, not
  connected and no reconnection scheduled; \<open>connect\<close> and the effect of the render in force
  change nothing.
\<close>

theorem unauthenticated_stays_idle:
  fixes h :: "'m hook"
  assumes "steps JSON_parse opts (mount opts ls False) evs = Some h"
    and "SetAuthenticated True \<notin> set evs"
  shows "h = mount opts ls False
       \<and> sockets h = [] \<and> wsRef h = None \<and> \<not> isConnected h \<and> timers h = []
       \<and> local_storage h = ls
       \<and> \<not> r_isAuthenticated (rendered h)
       \<and> connect opts (rendered h) h = h
       \<and> effect opts (rendered h) h = h"
proof -
  have "h = mount opts ls False"
    using assms by (rule steps_signed_out)
  then show ?thesis
    by (simp add: mount_signed_out connect_def effect_def)
qed

theorem unauthenticated_stays_idle_witness:
  "steps toy_parse default_options (mount default_options store_A False) idle_events
     = Some (mount default_options store_A False)
   \<and> SetAuthenticated True \<notin> set idle_events
   \<and> getItem (local_storage (mount default_options store_A False :: string hook)) ''access_token''
       = Some ''A1''
   \<and> sockets (mount default_options store_A False :: string hook) = []
   \<and> wsRef (mount default_options store_A False :: string hook) = None
   \<and> \<not> isConnected (mount default_options store_A False :: string hook)
   \<and> connect default_options (rendered (mount default_options store_A False :: string hook))
         (mount default_options store_A False :: string hook)
       = mount default_options store_A False"
proof -
  have s: "steps toy_parse default_options (mount default_options store_A False) idle_events
     = Some (mount default_options store_A False)"
    by (simp add: idle_events_def mount_signed_out rerender_def disconnect_def)
  have n: "SetAuthenticated True \<notin> set idle_events"
    by (simp add: idle_events_def)
  have a: "getItem (local_storage (mount default_options store_A False :: string hook)) ''access_token''
       = Some ''A1''"
    by (simp add: mount_signed_out store_A_def getItem_def setItem_def)
  from unauthenticated_stays_idle [OF s n] s n a show ?thesis
    by simp
qed

section \<open>useWebSocket: one stream at a time\<close>

lemma referenced_only_iff:
  "referenced_only h \<longleftrightarrow> (\<forall>i<length (sockets h). live (sockets h ! i) \<longrightarrow> wsRef h = Some i)"
  by (auto simp add: referenced_only_def live_sockets_def list_all_iff)

lemma wsRef_valid_iff:
  "wsRef_valid h \<longleftrightarrow> (\<forall>i. wsRef h = Some i \<longrightarrow> i < length (sockets h))"
  by (simp add: wsRef_valid_def split: option.splits)

lemma not_live_ws_close: "\<not> live (ws_close ws)"
  by (cases "ws_readyState ws") (simp_all add: ws_close_def live_def)

lemma connect_authenticated:
  assumes "r_isAuthenticated r"
  shows "sockets (connect opts r h) =
           (case wsRef h of None \<Rightarrow> sockets h | Some i \<Rightarrow> (sockets h)[i := ws_close (sockets h ! i)])
           @ [\<lparr>ws_url = url opts @ ''?token='' @ template_null (getItem (local_storage h) ''access_token''),
               ws_readyState = CONNECTING, ws_render = r\<rparr>]"
    and "wsRef (connect opts r h) = Some (length (sockets h))"
  using assms by (simp_all add: connect_def Let_def split: option.splits)

lemma connect_closes_all:
  assumes "referenced_only h" "r_isAuthenticated r" "i < length (sockets h)"
  shows "\<not> live (sockets (connect opts r h) ! i)"
proof (cases "wsRef h")
  case None
  then show ?thesis
    using assms by (simp add: connect_authenticated nth_append referenced_only_iff)
next
  case (Some k)
  show ?thesis
  proof (cases "i = k")
    case True
    then show ?thesis
      using assms Some by (simp add: connect_authenticated nth_append not_live_ws_close)
  next
    case False
    then show ?thesis
      using assms Some by (auto simp add: connect_authenticated nth_append referenced_only_iff)
  qed
qed

lemma length_connect:
  "r_isAuthenticated r \<Longrightarrow> length (sockets (connect opts r h)) = Suc (length (sockets h))"
  by (simp add: connect_authenticated split: option.splits)

lemma connect_new_live:
  "r_isAuthenticated r \<Longrightarrow> live (sockets (connect opts r h) ! length (sockets h))"
  by (simp add: connect_authenticated nth_append live_def split: option.splits)

lemma referenced_only_connect:
  assumes "referenced_only h"
  shows "referenced_only (connect opts r h)"
proof (cases "r_isAuthenticated r")
  case False
  then show ?thesis using assms by (simp add: connect_def)
next
  case True
  show ?thesis
    unfolding referenced_only_iff
  proof (intro allI impI)
    fix i assume i: "i < length (sockets (connect opts r h))" and l: "live (sockets (connect opts r h) ! i)"
    have "i = length (sockets h)"
      using connect_closes_all [OF assms True, of i opts] i l True by (auto simp add: length_connect less_Suc_eq)
    then show "wsRef (connect opts r h) = Some i"
      using True by (simp add: connect_authenticated)
  qed
qed

lemma wsRef_valid_connect:
  "wsRef_valid h \<Longrightarrow> wsRef_valid (connect opts r h)"
proof (cases "r_isAuthenticated r")
  case True
  then show ?thesis
    by (simp add: wsRef_valid_iff connect_authenticated split: option.splits)
next
  case False
  assume "wsRef_valid h"
  with False show ?thesis
    by (simp add: connect_def)
qed

lemma disconnect_fields:
  "wsRef (disconnect h) = None"
  "sockets (disconnect h) =
     (case wsRef h of None \<Rightarrow> sockets h | Some i \<Rightarrow> (sockets h)[i := ws_close (sockets h ! i)])"
  by (simp_all add: disconnect_def Let_def split: option.splits)

lemma referenced_only_disconnect:
  assumes "referenced_only h"
  shows "referenced_only (disconnect h)"
  unfolding referenced_only_iff
proof (intro allI impI)
  fix i assume i: "i < length (sockets (disconnect h))" and l: "live (sockets (disconnect h) ! i)"
  show "wsRef (disconnect h) = Some i"
  proof (cases "wsRef h")
    case None
    then show ?thesis using assms i l by (simp add: disconnect_fields referenced_only_iff)
  next
    case (Some k)
    then show ?thesis
      using assms i l not_live_ws_close [of "sockets h ! k"]
      by (cases "i = k") (auto simp add: disconnect_fields referenced_only_iff)
  qed
qed

lemma wsRef_valid_disconnect: "wsRef_valid (disconnect h)"
  by (simp add: wsRef_valid_iff disconnect_fields)

lemma handlers_keep_sockets [simp]:
  "sockets (onopen opts h) = sockets h" "wsRef (onopen opts h) = wsRef h"
  "sockets (onmessage JSON_parse opts d h) = sockets h" "wsRef (onmessage JSON_parse opts d h) = wsRef h"
  "sockets (onerror h) = sockets h" "wsRef (onerror h) = wsRef h"
  "sockets (onclose opts r h) = sockets h" "wsRef (onclose opts r h) = wsRef h"
  by (simp_all add: onopen_def onmessage_def onerror_def onclose_def Let_def split: option.splits)

lemma keeps_cong:
  assumes "sockets h' = sockets h" "wsRef h' = wsRef h" "referenced_only h \<and> wsRef_valid h"
  shows "referenced_only h' \<and> wsRef_valid h'"
proof -
  from assms(3) have "(\<forall>i<length (sockets h). live (sockets h ! i) \<longrightarrow> wsRef h = Some i)
      \<and> (\<forall>i. wsRef h = Some i \<longrightarrow> i < length (sockets h))"
    unfolding referenced_only_iff wsRef_valid_iff .
  then show ?thesis
    unfolding referenced_only_iff wsRef_valid_iff assms(1,2) .
qed

lemma set_readyState_keeps:
  assumes "referenced_only h \<and> wsRef_valid h" "i < length (sockets h)"
    and "live (sockets h ! i) \<or> \<not> live ((sockets h ! i)\<lparr>ws_readyState := s\<rparr>)"
  shows "referenced_only (h\<lparr>sockets := (sockets h)[i := (sockets h ! i)\<lparr>ws_readyState := s\<rparr>]\<rparr>)
       \<and> wsRef_valid (h\<lparr>sockets := (sockets h)[i := (sockets h ! i)\<lparr>ws_readyState := s\<rparr>]\<rparr>)"
proof -
  let ?h1 = "h\<lparr>sockets := (sockets h)[i := (sockets h ! i)\<lparr>ws_readyState := s\<rparr>]\<rparr>"
  have f: "wsRef h = Some j" if "j < length (sockets h)"
    and "live ((sockets h)[i := (sockets h ! i)\<lparr>ws_readyState := s\<rparr>] ! j)" for j
  proof (cases "j = i")
    case True
    with that assms(2,3) have "live (sockets h ! i)" by simp
    with assms(1,2) True show ?thesis unfolding referenced_only_iff by blast
  next
    case False
    with that have "live (sockets h ! j)" by simp
    with assms(1) that(1) show ?thesis unfolding referenced_only_iff by blast
  qed
  have v: "\<forall>k. wsRef h = Some k \<longrightarrow> k < length (sockets h)"
    using assms(1) unfolding wsRef_valid_iff by blast
  have s: "sockets ?h1 = (sockets h)[i := (sockets h ! i)\<lparr>ws_readyState := s\<rparr>]" "wsRef ?h1 = wsRef h"
    by simp_all
  show ?thesis
    unfolding referenced_only_iff wsRef_valid_iff s length_list_update
    using f v by blast
qed

lemma step_keeps:
  assumes "referenced_only h \<and> wsRef_valid h" "step JSON_parse opts h e = Some h'"
  shows "referenced_only h' \<and> wsRef_valid h'"
proof (cases e)
  case (WsOpen i)
  let ?h1 = "h\<lparr>sockets := (sockets h)[i := (sockets h ! i)\<lparr>ws_readyState := OPEN\<rparr>]\<rparr>"
  from assms(2) WsOpen have i: "i < length (sockets h)" "ws_readyState (sockets h ! i) = CONNECTING"
    and h': "h' = onopen opts ?h1"
    by (simp_all split: if_splits)
  have "referenced_only ?h1 \<and> wsRef_valid ?h1"
    using i by (intro set_readyState_keeps [OF assms(1)]) (simp_all add: live_def)
  then show ?thesis
    unfolding h' by (rule keeps_cong [rotated 2]) simp_all
next
  case (WsMessage i d)
  with assms(2) have h': "h' = onmessage JSON_parse opts d h"
    by (simp split: if_splits)
  show ?thesis
    unfolding h' using assms(1) by (rule keeps_cong [rotated 2]) simp_all
next
  case (WsError i)
  with assms(2) have h': "h' = onerror h"
    by (simp split: if_splits)
  show ?thesis
    unfolding h' using assms(1) by (rule keeps_cong [rotated 2]) simp_all
next
  case (WsClose i)
  let ?h1 = "h\<lparr>sockets := (sockets h)[i := (sockets h ! i)\<lparr>ws_readyState := CLOSED\<rparr>]\<rparr>"
  from assms(2) WsClose have i: "i < length (sockets h)"
    and h': "h' = onclose opts (ws_render (sockets h ! i)) ?h1"
    by (simp_all split: if_splits)
  have "referenced_only ?h1 \<and> wsRef_valid ?h1"
    using i by (intro set_readyState_keeps [OF assms(1)]) (simp_all add: live_def)
  then show ?thesis
    unfolding h' by (rule keeps_cong [rotated 2]) simp_all
next
  case (TimerFire k)
  let ?h1 = "h\<lparr>timers := (timers h)[k := (timers h ! k)\<lparr>timer_status := Fired\<rparr>],
               reconnectCount := reconnectCount h + 1,
               outputs := outputs h @ [Console_log ''Reconnecting...'']\<rparr>"
  from assms(2) TimerFire have h': "h' = connect opts (timer_render (timers h ! k)) ?h1"
    by (simp add: reconnect_def split: if_splits)
  have "referenced_only ?h1 \<and> wsRef_valid ?h1"
    using assms(1) by (rule keeps_cong [rotated 2]) simp_all
  then show ?thesis
    unfolding h' by (simp add: referenced_only_connect wsRef_valid_connect)
next
  case Rerender
  let ?r = "\<lparr>r_isAuthenticated = isAuthenticated h, r_reconnectCount = reconnectCount h\<rparr>"
  show ?thesis
  proof (cases "?r = rendered h")
    case True
    with assms Rerender show ?thesis by (simp add: rerender_def Let_def)
  next
    case False
    with assms(2) Rerender have h': "h' = (effect opts ?r (disconnect h))\<lparr>rendered := ?r\<rparr>"
      by (simp add: rerender_def Let_def)
    have "referenced_only (effect opts ?r (disconnect h)) \<and> wsRef_valid (effect opts ?r (disconnect h))"
      using assms(1)
      by (simp add: effect_def referenced_only_connect referenced_only_disconnect
          wsRef_valid_connect wsRef_valid_disconnect)
    then show ?thesis
      unfolding h' by (rule keeps_cong [rotated 2]) simp_all
  qed
next
  case Disconnect
  with assms(2) have h': "h' = disconnect h"
    by simp
  show ?thesis
    unfolding h' using assms(1) by (simp add: referenced_only_disconnect wsRef_valid_disconnect)
next
  case (SetAuthenticated b)
  with assms(2) have h': "h' = h\<lparr>isAuthenticated := b\<rparr>"
    by simp
  show ?thesis
    unfolding h' using assms(1) by (rule keeps_cong [rotated 2]) simp_all
qed

lemma effect_keeps:
  assumes "referenced_only h" "wsRef_valid h"
  shows "referenced_only (effect opts r h)" "wsRef_valid (effect opts r h)"
  using assms by (simp_all add: effect_def referenced_only_connect wsRef_valid_connect)

lemma steps_keep:
  assumes "referenced_only h \<and> wsRef_valid h" "steps JSON_parse opts h es = Some h'"
  shows "referenced_only h' \<and> wsRef_valid h'"
  using assms
proof (induction es arbitrary: h)
  case Nil
  then show ?case by simp
next
  case (Cons e es)
  from Cons.prems(2) obtain h1 where
    s: "step JSON_parse opts h e = Some h1" and r: "steps JSON_parse opts h1 es = Some h'"
    by (auto split: option.splits)
  from step_keeps [OF Cons.prems(1) s] have "referenced_only h1 \<and> wsRef_valid h1" .
  from Cons.IH [OF this r] show ?case .
qed

lemma mount_keeps: "referenced_only (mount opts ls auth) \<and> wsRef_valid (mount opts ls auth)"
  unfolding mount_def Let_def
  by (intro conjI effect_keeps) (simp_all add: referenced_only_iff wsRef_valid_iff)

lemma at_most_one:
  assumes "distinct xs" "list_all (\<lambda>i. w = Some i) xs"
  shows "length xs \<le> Suc 0"
proof (cases w)
  case None
  with assms(2) show ?thesis by (cases xs) simp_all
next
  case (Some k)
  with assms(2) have "set xs \<subseteq> {k}" by (auto simp add: list_all_iff)
  then have "card (set xs) \<le> card {k}" by (intro card_mono) simp_all
  with assms(1) show ?thesis by (simp add: distinct_card)
qed

lemma live_sockets_connect:
  assumes "referenced_only h" "r_isAuthenticated r"
  shows "live_sockets (connect opts r h) = [length (sockets h)]"
proof -
  have "filter (\<lambda>i. live (sockets (connect opts r h) ! i)) [0..<length (sockets h)] = []"
    using connect_closes_all [OF assms] by (simp add: filter_empty_conv)
  then show ?thesis
    using connect_new_live [OF assms(2), of opts h]
    by (simp add: live_sockets_def length_connect [OF assms(2)])
qed

lemma distinct_live_sockets: "distinct (live_sockets h)"
  by (simp add: live_sockets_def)

lemma connect_closes_referenced:
  assumes "wsRef_valid h" "r_isAuthenticated r" "wsRef h = Some i"
  shows "sockets (connect opts r h) ! i = ws_close (sockets h ! i)"
proof -
  from assms(1,3) have "i < length (sockets h)"
    unfolding wsRef_valid_iff by blast
  then show ?thesis
    using assms(2,3) by (simp add: connect_authenticated nth_append)
qed

text \<open>
  C10: in every state the hook reaches from its mount, under any schedule of events, every
  socket that is connecting or open is the one \<open>wsRef\<close> holds, so there is at most one.
  \<open>connect\<close> of an authenticated render calls \<open>close()\<close> on the socket \<open>wsRef\<close> holds
  before it makes the new one; afterwards the new socket is the only one connecting or
  open, and \<open>wsRef\<close> holds it.
\<close>

theorem one_stream:
  assumes "steps JSON_parse opts (mount opts ls auth) evs = Some h"
  shows "referenced_only h
       \<and> length (live_sockets h) \<le> 1
       \<and> (r_isAuthenticated r \<longrightarrow>
             (\<forall>i. wsRef h = Some i \<longrightarrow>
                  sockets (connect opts r h) ! i = ws_close (sockets h ! i)
                \<and> \<not> live (sockets (connect opts r h) ! i))
           \<and> wsRef (connect opts r h) = Some (length (sockets h))
           \<and> live_sockets (connect opts r h) = [length (sockets h)])"
proof -
  have k: "referenced_only h \<and> wsRef_valid h"
    using mount_keeps assms by (rule steps_keep)
  then have "length (live_sockets h) \<le> 1"
    using at_most_one [OF distinct_live_sockets, of "wsRef h" h]
    by (simp add: referenced_only_def)
  moreover have "sockets (connect opts r h) ! i = ws_close (sockets h ! i)
                \<and> \<not> live (sockets (connect opts r h) ! i)"
    if "r_isAuthenticated r" "wsRef h = Some i" for i
    using connect_closes_referenced [of h r i opts] k that by (simp add: not_live_ws_close)
  moreover have "wsRef (connect opts r h) = Some (length (sockets h))" if "r_isAuthenticated r"
    using that by (simp add: connect_authenticated)
  moreover have "live_sockets (connect opts r h) = [length (sockets h)]" if "r_isAuthenticated r"
    using k that by (simp add: live_sockets_connect)
  ultimately show ?thesis
    using k by blast
qed

theorem one_stream_witness:
  "steps toy_parse default_options (mount default_options store_A True) [WsOpen 0] = Some open_channel
   \<and> referenced_only open_channel
   \<and> live_sockets open_channel = [0]
   \<and> wsRef open_channel = Some 0
   \<and> r_isAuthenticated signed_in
   \<and> ws_readyState (sockets (connect default_options signed_in open_channel) ! 0) = CLOSING
   \<and> wsRef (connect default_options signed_in open_channel) = Some 1
   \<and> live_sockets (connect default_options signed_in open_channel) = [1]"
proof -
  have a: "r_isAuthenticated signed_in" "wsRef open_channel = Some 0"
    "length (sockets open_channel) = 1" "live_sockets open_channel = [0]"
    "ws_readyState (ws_close (sockets open_channel ! 0)) = CLOSING"
    by (simp_all add: signed_in_def open_channel_def live_sockets_def live_def ws_close_def)
  from one_stream [OF open_channel_reached, of signed_in] a
  have "referenced_only open_channel"
    "sockets (connect default_options signed_in open_channel) ! 0 = ws_close (sockets open_channel ! 0)"
    "wsRef (connect default_options signed_in open_channel) = Some 1"
    "live_sockets (connect default_options signed_in open_channel) = [1]"
    by simp_all
  with a open_channel_reached show ?thesis by simp
qed

section \<open>useWebSocket: reconnection after a close\<close>

lemma clearTimeout_idempotent: "clearTimeout (clearTimeout tm) = clearTimeout tm"
  by (cases "timer_status tm") (simp_all add: clearTimeout_def)

lemma disconnect_idempotent: "disconnect (disconnect h) = disconnect h"
proof (cases "reconnectTimeoutRef h")
  case None
  then show ?thesis
    by (cases "wsRef h") (simp_all add: disconnect_def)
next
  case (Some k)
  show ?thesis
  proof (cases "k < length (timers h)")
    case True
    with Some show ?thesis
      by (cases "wsRef h") (simp_all add: disconnect_def clearTimeout_idempotent)
  next
    case False
    with Some show ?thesis
      by (cases "wsRef h") (simp_all add: disconnect_def list_update_beyond)
  qed
qed

lemma disconnect_cancels_pending:
  assumes "reconnectTimeoutRef h = Some k" "k < length (timers h)"
  shows "timer_status (timers (disconnect h) ! k) \<noteq> Pending"
  using assms
  by (cases "wsRef h"; cases "timer_status (timers h ! k)")
    (simp_all add: disconnect_def clearTimeout_def)

lemma close_after_disconnect_schedules:
  assumes "wsRef h = Some i" "i < length (sockets h)" "ws_readyState (sockets h ! i) = OPEN"
    and "r_reconnectCount (ws_render (sockets h ! i)) < maxReconnectAttempts opts"
  shows "\<exists>h'. steps JSON_parse opts h [Disconnect, WsClose i] = Some h'
           \<and> timers h' = timers (disconnect h) @ [\<lparr>timer_render = ws_render (sockets h ! i), timer_status = Pending\<rparr>]
           \<and> reconnectTimeoutRef h' = Some (length (timers h))"
  using assms
  by (cases "reconnectTimeoutRef h")
    (simp_all add: disconnect_def ws_close_def onclose_def Let_def)

text \<open>
  C7 on the code: \<open>disconnect()\<close> on the open channel leaves the socket \<open>CLOSING\<close> and
  \<open>wsRef\<close> empty. When the socket's \<open>close\<close> event arrives, \<open>onclose\<close> schedules a
  reconnection (a pending timer), and when that timer fires \<open>connect\<close> opens a new socket
  and \<open>reconnectCount\<close> becomes 1.
\<close>

theorem disconnect_then_reconnect:
  "map_option summary (steps toy_parse default_options open_channel [Disconnect])
     = Some (0, [CLOSING], [], None)
   \<and> map_option summary (steps toy_parse default_options open_channel [Disconnect, WsClose 0])
     = Some (0, [CLOSED], [Pending], None)
   \<and> map_option summary
       (steps toy_parse default_options open_channel [Disconnect, WsClose 0, TimerFire 0])
     = Some (1, [CLOSED, CONNECTING], [Fired], Some 1)"
  by (simp add: summary_def open_channel_def default_options_def disconnect_def ws_close_def
      onclose_def reconnect_def connect_def Let_def)

text \<open>
  C6 on the code, Scenario C (\<open>reconnectInterval = 0\<close>, \<open>maxReconnectAttempts = 3\<close>, every
  socket closes without having opened). When each \<open>close\<close> event arrives after the render
  that follows a timer, \<open>reconnectCount\<close> reaches 4, eight sockets have been made, six
  reconnections have been scheduled and the eighth socket is connecting. When each \<open>close\<close>
  event arrives before that render, \<open>reconnectCount\<close> stops at 3 after seven sockets and
  six scheduled reconnections.
\<close>

theorem reconnection_not_bounded:
  "map_option summary (steps toy_parse options_C (mount options_C store_A True) closes_after_render)
     = Some (4, [CLOSED, CLOSED, CLOSED, CLOSED, CLOSED, CLOSED, CLOSED, CONNECTING],
             [Fired, Fired, Cleared, Fired, Cleared, Fired], Some 7)
   \<and> map_option summary (steps toy_parse options_C (mount options_C store_A True) closes_before_render)
     = Some (3, [CLOSED, CLOSED, CLOSED, CLOSED, CLOSED, CLOSED, CLOSED],
             [Fired, Cleared, Fired, Cleared, Fired, Cleared], Some 6)"
  by (simp add: summary_def options_C_def default_options_def mount_def effect_def connect_def
      closes_after_render_def closes_before_render_def disconnect_def ws_close_def clearTimeout_def
      onclose_def reconnect_def rerender_def store_A_def getItem_def setItem_def Let_def)

end
